theory Spec2Isabelle
  imports Main "HOL-Library.Sublist" "HOL-Library.Char_ord" "HOL-Library.List_Lexorder"
    "HOL-Library.Multiset"
begin

section \<open>JavaScript values\<close>

text \<open>
  The values that flow through \<^verbatim>\<open>getBook\<close> and \<^verbatim>\<open>mapBookToBookResponseDTO\<close>.
  An object is the list of its own properties in insertion order, so that a property
  name such as \<^verbatim>\<open>bookshelves\<close> is data of the model and not a field of a HOL record.
  A string is a list of code units; a \<open>char\<close> stands for one code unit below 256.
  Numbers of this program come out of \<^verbatim>\<open>parseInt\<close> only: \<open>Num n\<close> is the double of the
  integer \<open>n\<close> (\<open>Num 0\<close> is \<^verbatim>\<open>+0\<close>), and \<^verbatim>\<open>-0\<close>, the two infinities and \<^verbatim>\<open>NaN\<close> have
  constructors of their own.
\<close>

datatype jsval =
    Undefined
  | Null
  | Bool bool
  | Num int
  | NegZero
  | Infinity
  | NegInfinity
  | NaN
  | Str string
  | Arr "jsval list"
  | Obj "(string \<times> jsval) list"

datatype error = Error string | TypeError

text \<open>\<^verbatim>\<open>!v\<close> is \<open>\<not> truthy v\<close>.\<close>

fun truthy :: "jsval \<Rightarrow> bool" where
  "truthy Undefined = False"
| "truthy Null = False"
| "truthy (Bool b) = b"
| "truthy (Num n) = (n \<noteq> 0)"
| "truthy NegZero = False"
| "truthy Infinity = True"
| "truthy NegInfinity = True"
| "truthy NaN = False"
| "truthy (Str s) = (s \<noteq> [])"
| "truthy (Arr xs) = True"
| "truthy (Obj fs) = True"

text \<open>
  \<^verbatim>\<open>v.k\<close> for a value that is neither \<^verbatim>\<open>null\<close> nor \<^verbatim>\<open>undefined\<close> and a name \<open>k\<close>
  that no prototype defines: the own property, or \<^verbatim>\<open>undefined\<close>.
\<close>

fun getProp :: "jsval \<Rightarrow> string \<Rightarrow> jsval" where
  "getProp (Obj fs) k = (case map_of fs k of Some v \<Rightarrow> v | None \<Rightarrow> Undefined)"
| "getProp v k = Undefined"

section \<open>Strings\<close>

definition LF :: char where "LF = CHR 0x0A"
definition CR :: char where "CR = CHR 0x0D"
definition TAB :: char where "TAB = CHR 0x09"

text \<open>\<^verbatim>\<open>s.startsWith(p)\<close> and \<^verbatim>\<open>s.includes(p)\<close>.\<close>

definition startsWith :: "string \<Rightarrow> string \<Rightarrow> bool" where
  "startsWith s p \<longleftrightarrow> take (length p) s = p"

fun includes_str :: "string \<Rightarrow> string \<Rightarrow> bool" where
  "includes_str [] p = (p = [])"
| "includes_str (c # cs) p = (startsWith (c # cs) p \<or> includes_str cs p)"

subsection \<open>The title pattern\<close>

text \<open>
  \<^verbatim>\<open>LINE_BREAK_PATTERN = /[ \t]*[\n\r]+[ \t]*/g\<close>. The two character classes are
  disjoint, so the pattern matches at the start of \<open>s\<close> exactly when the longest run of
  blanks there is followed by a line break, and the match then takes every line break
  and every blank that follows. \<open>matchLineBreak s\<close> is what is left of \<open>s\<close> after the
  match.
\<close>

definition isBlank :: "char \<Rightarrow> bool" where
  "isBlank c \<longleftrightarrow> c = CHR '' '' \<or> c = TAB"

definition isBreak :: "char \<Rightarrow> bool" where
  "isBreak c \<longleftrightarrow> c = LF \<or> c = CR"

definition matchLineBreak :: "string \<Rightarrow> string option" where
  "matchLineBreak s =
     (case dropWhile isBlank s of
        [] \<Rightarrow> None
      | c # cs \<Rightarrow> if isBreak c then Some (dropWhile isBlank (dropWhile isBreak cs)) else None)"

text \<open>
  \<^verbatim>\<open>s.replace(LINE_BREAK_PATTERN, rep)\<close>: the pattern is global, so every match,
  found from left to right, is replaced; a match is never empty and \<open>rep\<close> holds no
  \<^verbatim>\<open>$\<close>.
\<close>

function replaceLineBreaks :: "string \<Rightarrow> string \<Rightarrow> string" where
  "replaceLineBreaks rep [] = []"
| "replaceLineBreaks rep (c # cs) =
     (case matchLineBreak (c # cs) of
        Some rest \<Rightarrow> rep @ replaceLineBreaks rep rest
      | None \<Rightarrow> c # replaceLineBreaks rep cs)"
  by pat_completeness auto

lemma matchLineBreak_shorter: "matchLineBreak s = Some rest \<Longrightarrow> length rest < length s"
proof -
  assume m: "matchLineBreak s = Some rest"
  then obtain c cs where d: "dropWhile isBlank s = c # cs"
    and r: "rest = dropWhile isBlank (dropWhile isBreak cs)"
    by (auto simp: matchLineBreak_def split: list.splits if_splits)
  have "length rest \<le> length cs"
    unfolding r by (meson length_dropWhile_le le_trans)
  moreover have "length (c # cs) \<le> length s"
    using length_dropWhile_le [of isBlank s] d by simp
  ultimately show ?thesis by simp
qed

termination replaceLineBreaks
  by (relation "measure (\<lambda>(rep, s). length s)") (auto dest: matchLineBreak_shorter)

text \<open>
  \<^verbatim>\<open>fixSubtitles\<close>. \<^verbatim>\<open>String.prototype.replace\<close> takes two arguments: the \<^verbatim>\<open>1\<close>
  passed as a third one is not read.
\<close>

definition fixSubtitles :: "string \<Rightarrow> string" where
  "fixSubtitles title =
     (let newTitle = replaceLineBreaks '': '' title
      in replaceLineBreaks ''; '' newTitle)"

subsection \<open>parseInt\<close>

text \<open>
  \<^verbatim>\<open>parseInt(s, 10)\<close>: leading white space is skipped, one sign is read, then the
  longest run of decimal digits; no digit gives \<^verbatim>\<open>NaN\<close>. The result is the double
  nearest to the value of the digits, ties to the even significand: exact below
  \<open>2^53\<close>, a multiple of a power of two above, an infinity from \<open>2^1024 - 2^970\<close> on,
  and \<^verbatim>\<open>-0\<close> for a negative zero.
\<close>

definition isWhiteSpace :: "char \<Rightarrow> bool" where
  "isWhiteSpace c \<longleftrightarrow>
     c = CHR '' '' \<or> c = TAB \<or> c = LF \<or> c = CR \<or> c = CHR 0x0B \<or> c = CHR 0x0C \<or> c = CHR 0xA0"

definition isDigit :: "char \<Rightarrow> bool" where
  "isDigit c \<longleftrightarrow> CHR ''0'' \<le> c \<and> c \<le> CHR ''9''"

definition digitsValue :: "string \<Rightarrow> int" where
  "digitsValue ds = foldl (\<lambda>acc c. 10 * acc + (of_char c - 48)) 0 ds"

text \<open>The number of binary digits of a positive \<open>n\<close>.\<close>

function bitLength :: "int \<Rightarrow> nat" where
  "bitLength n = (if n \<le> 0 then 0 else Suc (bitLength (n div 2)))"
  by pat_completeness auto

termination bitLength
  by (relation "measure nat") auto

declare bitLength.simps [simp del]

text \<open>
  The double of an integer that is not negative, as the integer it is equal to: 53
  significant binary digits, round to nearest, ties to even. \<open>None\<close> is \<^verbatim>\<open>Infinity\<close>.
\<close>

definition toDouble :: "int \<Rightarrow> int option" where
  "toDouble n =
     (if n < 2 ^ 53 then Some n
      else
        (let shift = bitLength n - 53;
             q = n div 2 ^ shift;
             r = n mod 2 ^ shift;
             half = 2 ^ (shift - 1);
             q' = (if half < r \<or> (r = half \<and> odd q) then q + 1 else q)
         in if 2 ^ 1024 \<le> q' * 2 ^ shift then None else Some (q' * 2 ^ shift)))"

definition parseInt :: "string \<Rightarrow> jsval" where
  "parseInt s =
     (let t = dropWhile isWhiteSpace s;
          negative = (case t of [] \<Rightarrow> False | c # cs \<Rightarrow> c = CHR ''-'');
          u = (case t of [] \<Rightarrow> [] | c # cs \<Rightarrow> if c = CHR ''-'' \<or> c = CHR ''+'' then cs else t);
          ds = takeWhile isDigit u
      in if ds = [] then NaN
         else
           (case toDouble (digitsValue ds) of
              None \<Rightarrow> if negative then NegInfinity else Infinity
            | Some m \<Rightarrow>
                if negative then (if m = 0 then NegZero else Num (- m))
                else Num m))"

section \<open>The document\<close>

text \<open>
  The tree that \<^verbatim>\<open>new DOMParser().parseFromString\<close> of the xmldom package builds.
  An element has its namespace URI, its local name, its attributes by qualified name
  and its children; a text node (or a CDATA section) has its text. Comments and
  processing instructions add nothing to \<^verbatim>\<open>textContent\<close> and are left out.
\<close>

datatype node =
    Element string string "(string \<times> string) list" "node list"
  | TextNode string

fun textContent :: "node \<Rightarrow> string" where
  "textContent (TextNode s) = s"
| "textContent (Element ns ln as cs) = concat (map textContent cs)"

text \<open>The elements below a node, in document order; the node itself is not one of them.\<close>

fun descendants :: "node \<Rightarrow> node list" where
  "descendants (TextNode s) = []"
| "descendants (Element ns ln as cs) = concat (map (\<lambda>c. c # descendants c) cs)"

fun hasTagNameNS :: "string \<Rightarrow> string \<Rightarrow> node \<Rightarrow> bool" where
  "hasTagNameNS namespaceURI localName (Element ns ln as cs) = (ns = namespaceURI \<and> ln = localName)"
| "hasTagNameNS namespaceURI localName (TextNode s) = False"

definition getElementsByTagNameNS :: "string \<Rightarrow> string \<Rightarrow> node \<Rightarrow> node list" where
  "getElementsByTagNameNS namespaceURI localName n =
     filter (hasTagNameNS namespaceURI localName) (descendants n)"

text \<open>\<^verbatim>\<open>getAttribute\<close> of xmldom gives the empty string for an attribute that is not there.\<close>

fun getAttribute :: "node \<Rightarrow> string \<Rightarrow> string" where
  "getAttribute (Element ns ln as cs) name = (case map_of as name of Some v \<Rightarrow> v | None \<Rightarrow> [])"
| "getAttribute (TextNode s) name = []"

text \<open>\<^verbatim>\<open>list[0]\<close>: \<open>None\<close> is \<^verbatim>\<open>undefined\<close>.\<close>

fun first :: "'a list \<Rightarrow> 'a option" where
  "first [] = None"
| "first (x # xs) = Some x"

definition NAMESPACES_dc :: string where
  "NAMESPACES_dc = ''http://purl.org/dc/terms/''"

definition NAMESPACES_dcam :: string where
  "NAMESPACES_dcam = ''http://purl.org/dc/dcam/''"

definition NAMESPACES_marcrel :: string where
  "NAMESPACES_marcrel = ''http://id.loc.gov/vocabulary/relators/''"

definition NAMESPACES_pg :: string where
  "NAMESPACES_pg = ''http://www.gutenberg.org/2009/pgterms/''"

definition NAMESPACES_rdf :: string where
  "NAMESPACES_rdf = ''http://www.w3.org/1999/02/22-rdf-syntax-ns#''"

section \<open>getBook\<close>

text \<open>
  The body of \<^verbatim>\<open>getBook\<close>, one definition for each block of the function. A block
  that reads a property of \<^verbatim>\<open>undefined\<close> throws a \<^verbatim>\<open>TypeError\<close>, which ends the call.
\<close>

text \<open>Creators and translators: an element with no \<^verbatim>\<open>pg:name\<close> inside pushes nothing.\<close>

definition person :: "node \<Rightarrow> jsval option" where
  "person el =
     (case first (getElementsByTagNameNS NAMESPACES_pg ''name'' el) of
        None \<Rightarrow> None
      | Some name \<Rightarrow>
          Some (Obj
            [(''birth'',
                case first (getElementsByTagNameNS NAMESPACES_pg ''birthdate'' el) of
                  None \<Rightarrow> Null | Some birth \<Rightarrow> parseInt (textContent birth)),
             (''death'',
                case first (getElementsByTagNameNS NAMESPACES_pg ''deathdate'' el) of
                  None \<Rightarrow> Null | Some death \<Rightarrow> parseInt (textContent death)),
             (''name'', Str (textContent name))]))"

definition getAuthors :: "node \<Rightarrow> jsval" where
  "getAuthors book =
     Arr (List.map_filter person (getElementsByTagNameNS NAMESPACES_dc ''creator'' book))"

definition getTranslators :: "node \<Rightarrow> jsval" where
  "getTranslators book =
     Arr (List.map_filter person (getElementsByTagNameNS NAMESPACES_marcrel ''trl'' book))"

definition getTitle :: "node \<Rightarrow> jsval" where
  "getTitle book =
     (case first (getElementsByTagNameNS NAMESPACES_dc ''title'' book) of
        None \<Rightarrow> Null
      | Some title \<Rightarrow> Str (fixSubtitles (textContent title)))"

text \<open>
  Subjects. What one \<^verbatim>\<open>dc:subject\<close> element pushes: nothing (\<open>None\<close>), or a value that
  is a string or \<^verbatim>\<open>undefined\<close> (\<open>Some (Some s)\<close>, \<open>Some None\<close>).
\<close>

definition subjectEntry :: "node \<Rightarrow> string option option" where
  "subjectEntry subject =
     (case first (getElementsByTagNameNS NAMESPACES_dcam ''memberOf'' subject) of
        None \<Rightarrow> None
      | Some subjectType \<Rightarrow>
          (let value = map_option textContent
                 (first (getElementsByTagNameNS NAMESPACES_rdf ''value'' subject))
           in if getAttribute subjectType ''rdf:resource'' = ''dc:LCSH'' then Some value
              else None))"

text \<open>
  \<^verbatim>\<open>Array.prototype.sort()\<close> with no comparator, on strings and \<^verbatim>\<open>undefined\<close>: the
  strings in ascending order of their code units, then every \<^verbatim>\<open>undefined\<close>.
\<close>

definition sortDefault :: "string option list \<Rightarrow> string option list" where
  "sortDefault xs = map Some (sort (List.map_filter id xs)) @ filter (\<lambda>x. x = None) xs"

definition optStr :: "string option \<Rightarrow> jsval" where
  "optStr x = (case x of None \<Rightarrow> Undefined | Some s \<Rightarrow> Str s)"

definition getSubjects :: "node \<Rightarrow> jsval" where
  "getSubjects book =
     Arr (map optStr (sortDefault
       (List.map_filter subjectEntry (getElementsByTagNameNS NAMESPACES_dc ''subject'' book))))"

definition getBookshelves :: "node \<Rightarrow> jsval" where
  "getBookshelves book =
     Arr (List.map_filter
       (\<lambda>bookshelf. map_option (\<lambda>value. Str (textContent value))
          (first (getElementsByTagNameNS NAMESPACES_rdf ''value'' bookshelf)))
       (getElementsByTagNameNS NAMESPACES_pg ''bookshelf'' book))"

definition getCopyright :: "node \<Rightarrow> error + jsval" where
  "getCopyright book =
     (case first (getElementsByTagNameNS NAMESPACES_dc ''rights'' book) of
        None \<Rightarrow> Inl TypeError
      | Some rights \<Rightarrow>
          if startsWith (textContent rights) ''Public domain in the USA.'' then Inr (Bool False)
          else if startsWith (textContent rights) ''Copyrighted.'' then Inr (Bool True)
          else Inr Null)"

record format =
  contentType :: string
  url :: string

text \<open>One turn of the loop over the \<^verbatim>\<open>pg:file\<close> elements, on the formats kept so far.\<close>

definition addFile :: "node \<Rightarrow> format list \<Rightarrow> error + format list" where
  "addFile file formats =
     (case first (getElementsByTagNameNS NAMESPACES_dc ''format'' file) of
        None \<Rightarrow> Inl TypeError
      | Some fmt \<Rightarrow>
          (case first (getElementsByTagNameNS NAMESPACES_rdf ''value'' fmt) of
             None \<Rightarrow> Inr formats
           | Some ct \<Rightarrow>
               if \<not> list_ex (\<lambda>format. contentType format = textContent ct) formats \<or>
                  list_ex (\<lambda>format. contentType format = textContent ct \<and>
                             includes_str (url format) ''noimages'') formats
               then Inr (formats @
                      [\<lparr>contentType = textContent ct, url = getAttribute file ''rdf:about''\<rparr>])
               else Inr formats))"

fun addFiles :: "node list \<Rightarrow> format list \<Rightarrow> error + format list" where
  "addFiles [] formats = Inr formats"
| "addFiles (file # files) formats =
     (case addFile file formats of
        Inl e \<Rightarrow> Inl e
      | Inr formats' \<Rightarrow> addFiles files formats')"

definition formatObj :: "format \<Rightarrow> jsval" where
  "formatObj f = Obj [(''contentType'', Str (contentType f)), (''url'', Str (url f))]"

definition getFormats :: "node \<Rightarrow> error + jsval" where
  "getFormats book =
     (case addFiles (getElementsByTagNameNS NAMESPACES_pg ''file'' book) [] of
        Inl e \<Rightarrow> Inl e
      | Inr formats \<Rightarrow> Inr (Arr (map formatObj formats)))"

definition getType :: "node \<Rightarrow> error + jsval" where
  "getType book =
     (case first (getElementsByTagNameNS NAMESPACES_dc ''type'' book) of
        None \<Rightarrow> Inl TypeError
      | Some t \<Rightarrow>
          (case first (getElementsByTagNameNS NAMESPACES_rdf ''value'' t) of
             None \<Rightarrow> Inr (Str ''Text'')
           | Some bookType \<Rightarrow> Inr (Str (textContent bookType))))"

fun addLanguages :: "node list \<Rightarrow> jsval list \<Rightarrow> error + jsval list" where
  "addLanguages [] languages = Inr languages"
| "addLanguages (language # rest) languages =
     (case first (getElementsByTagNameNS NAMESPACES_rdf ''value'' language) of
        None \<Rightarrow> Inl TypeError
      | Some value \<Rightarrow> addLanguages rest (languages @ [Str (textContent value)]))"

definition getLanguages :: "node \<Rightarrow> error + jsval" where
  "getLanguages book =
     (case addLanguages (getElementsByTagNameNS NAMESPACES_dc ''language'' book) [] of
        Inl e \<Rightarrow> Inl e
      | Inr languages \<Rightarrow> Inr (Arr languages))"

text \<open>
  \<^verbatim>\<open>getBook(id, xmlFilePath)\<close>. The second argument of the model is what reading and
  parsing the file gave: \<open>Inl err\<close> when one of them threw \<open>err\<close>, and otherwise
  \<open>Inr\<close> of the document element, \<open>None\<close> for a document that has none. The blocks that cannot throw are pure, so they are
  written where their value is used.
\<close>

definition getBook :: "string \<Rightarrow> string + node option \<Rightarrow> error + jsval" where
  "getBook id' parsed =
     (case parsed of
        Inl err \<Rightarrow> Inl (Error (''The XML file could not be parsed. '' @ err))
      | Inr None \<Rightarrow> Inl TypeError
      | Inr (Some root) \<Rightarrow>
     (case first (getElementsByTagNameNS NAMESPACES_pg ''ebook'' root) of
        None \<Rightarrow> Inl TypeError
      | Some book \<Rightarrow>
     (case getCopyright book of Inl e \<Rightarrow> Inl e | Inr copyright \<Rightarrow>
     (case getFormats book of Inl e \<Rightarrow> Inl e | Inr formats \<Rightarrow>
     (case getType book of Inl e \<Rightarrow> Inl e | Inr bookType \<Rightarrow>
     (case getLanguages book of Inl e \<Rightarrow> Inl e | Inr languages \<Rightarrow>
        Inr (Obj
          [(''id'', parseInt id'),
           (''title'', getTitle book),
           (''authors'', getAuthors book),
           (''translators'', getTranslators book),
           (''type'', bookType),
           (''subjects'', getSubjects book),
           (''languages'', languages),
           (''formats'', formats),
           (''bookshelves'', getBookshelves book),
           (''copyright'', copyright)])))))))"

section \<open>The mapper\<close>

definition BookDTO ::
  "jsval \<Rightarrow> jsval \<Rightarrow> jsval \<Rightarrow> jsval \<Rightarrow> jsval \<Rightarrow> jsval \<Rightarrow> jsval \<Rightarrow> jsval \<Rightarrow> jsval \<Rightarrow> jsval \<Rightarrow> jsval"
where
  "BookDTO gutenbergId title authors translators type' subjects languages formats
     bookShelves copyright =
     Obj [(''gutenbergId'', gutenbergId),
          (''title'', title),
          (''authors'', authors),
          (''translators'', translators),
          (''type'', type'),
          (''subjects'', subjects),
          (''languages'', languages),
          (''formats'', formats),
          (''bookShelves'', bookShelves),
          (''copyright'', copyright)]"

definition mapBookToBookResponseDTO :: "jsval \<Rightarrow> error + jsval" where
  "mapBookToBookResponseDTO book =
     (if \<not> truthy book then Inl (Error ''Book entity is required'')
      else Inr (BookDTO
        (getProp book ''id'')
        (getProp book ''title'')
        (getProp book ''authors'')
        (getProp book ''translators'')
        (getProp book ''type'')
        (getProp book ''subjects'')
        (getProp book ''languages'')
        (getProp book ''formats'')
        (getProp book ''bookShelves'')
        (getProp book ''copyright'')))"

section \<open>The store\<close>

text \<open>
  Modelled from the spec: the store and \<^verbatim>\<open>db.book.findOneAndUpdate\<close> with
  \<^verbatim>\<open>upsert: true\<close>, which are Mongoose and MongoDB and not in the source tree. The
  specification's words: ``insert-or-update keyed by external identifier; full field
  replacement, no merge'', ``inserting default field values when no prior record
  exists, replacing all mapped fields otherwise''. The store is the list of its
  documents; the first document that meets the filter gets every field of the update
  replaced, and when none meets it a new document holds the filter's fields and the
  update's (the schema declares no default value).
\<close>

text \<open>
  Modelled from the spec: replacing one field of a document (``full field replacement'').
  The field keeps its place; a new field goes last.
\<close>

fun setProp :: "string \<Rightarrow> jsval \<Rightarrow> (string \<times> jsval) list \<Rightarrow> (string \<times> jsval) list" where
  "setProp k v [] = [(k, v)]"
| "setProp k v ((k', v') # fs) = (if k' = k then (k, v) # fs else (k', v') # setProp k v fs)"

definition replaceFields ::
  "(string \<times> jsval) list \<Rightarrow> (string \<times> jsval) list \<Rightarrow> (string \<times> jsval) list" where
  "replaceFields update fs = fold (\<lambda>(k, v). setProp k v) update fs"

fun ownFields :: "jsval \<Rightarrow> (string \<times> jsval) list" where
  "ownFields (Obj fs) = fs"
| "ownFields v = []"

text \<open>
  Modelled from the spec: the filter of the upsert, an equality for each of its fields
  (``keyed by external identifier''), and the upsert itself.
\<close>

definition meetsFilter :: "(string \<times> jsval) list \<Rightarrow> jsval \<Rightarrow> bool" where
  "meetsFilter conditions doc \<longleftrightarrow> list_all (\<lambda>(k, v). getProp doc k = v) conditions"

fun findOneAndUpdate :: "(string \<times> jsval) list \<Rightarrow> jsval \<Rightarrow> jsval list \<Rightarrow> jsval list" where
  "findOneAndUpdate conditions update [] =
     [Obj (replaceFields (ownFields update) conditions)]"
| "findOneAndUpdate conditions update (doc # docs) =
     (if meetsFilter conditions doc
      then Obj (replaceFields (ownFields update) (ownFields doc)) # docs
      else doc # findOneAndUpdate conditions update docs)"

text \<open>
  One turn of the orchestrator's loop in \<^verbatim>\<open>downloadExtractUpsert\<close>, for a directory whose
  name passed the number test: parse, map, upsert by \<^verbatim>\<open>gutenbergId\<close>.
\<close>

definition upsertBook :: "jsval \<Rightarrow> jsval list \<Rightarrow> jsval list" where
  "upsertBook bookDTO store =
     findOneAndUpdate [(''gutenbergId'', getProp bookDTO ''gutenbergId'')] bookDTO store"

definition processRecord ::
  "string \<Rightarrow> string + node option \<Rightarrow> jsval list \<Rightarrow> error + jsval list" where
  "processRecord subdirectory parsed store =
     (case getBook subdirectory parsed of
        Inl e \<Rightarrow> Inl e
      | Inr book \<Rightarrow>
          (case mapBookToBookResponseDTO book of
             Inl e \<Rightarrow> Inl e
           | Inr bookDTO \<Rightarrow> Inr (upsertBook bookDTO store)))"

section \<open>The keep rule of the formats, in the specification's words\<close>

text \<open>
  The content-type value of a \<^verbatim>\<open>pg:file\<close> element, when it has one: the text of the first
  \<^verbatim>\<open>rdf:value\<close> inside its first \<^verbatim>\<open>dc:format\<close>.
\<close>

definition fileContentType :: "node \<Rightarrow> string option" where
  "fileContentType file =
     (case first (getElementsByTagNameNS NAMESPACES_dc ''format'' file) of
        None \<Rightarrow> None
      | Some fmt \<Rightarrow>
          map_option textContent (first (getElementsByTagNameNS NAMESPACES_rdf ''value'' fmt)))"

text \<open>
  The rule as the specification words it, to compare \<open>addFiles\<close> with: a pair is
  added when no kept pair has its content type, or some kept pair has it with a url
  that holds \<^verbatim>\<open>"noimages"\<close> (\<open>sublist p s\<close> is \<open>\<exists>u v. s = u @ p @ v\<close>); the files are taken
  in document order.
\<close>

definition spec_keeps :: "format list \<Rightarrow> string \<Rightarrow> bool" where
  "spec_keeps kept ct \<longleftrightarrow>
     (\<forall>f \<in> set kept. contentType f \<noteq> ct) \<or>
     (\<exists>f \<in> set kept. contentType f = ct \<and> sublist ''noimages'' (url f))"

fun spec_formats :: "node list \<Rightarrow> format list \<Rightarrow> format list" where
  "spec_formats [] kept = kept"
| "spec_formats (file # files) kept =
     spec_formats files
       (case fileContentType file of
          None \<Rightarrow> kept
        | Some ct \<Rightarrow>
            if spec_keeps kept ct
            then kept @ [\<lparr>contentType = ct, url = getAttribute file ''rdf:about''\<rparr>]
            else kept)"

section \<open>Example documents\<close>

definition rdfValue :: "string \<Rightarrow> node" where
  "rdfValue t = Element NAMESPACES_rdf ''value'' [] [TextNode t]"

definition described :: "string \<Rightarrow> string \<Rightarrow> node list \<Rightarrow> node" where
  "described ns ln cs = Element ns ln [] [Element NAMESPACES_rdf ''Description'' [] cs]"

definition subjectEl :: "string \<Rightarrow> node list \<Rightarrow> node" where
  "subjectEl scheme vs =
     described NAMESPACES_dc ''subject''
       (Element NAMESPACES_dcam ''memberOf'' [(''rdf:resource'', scheme)] [] # vs)"

definition fileEl :: "string \<Rightarrow> node list \<Rightarrow> node" where
  "fileEl about cs = Element NAMESPACES_pg ''file'' [(''rdf:about'', about)] cs"

definition ebookEl :: "node list \<Rightarrow> node" where
  "ebookEl cs = Element NAMESPACES_pg ''ebook'' [(''rdf:about'', ''ebooks/11'')] cs"

definition ebookDoc :: "node list \<Rightarrow> node" where
  "ebookDoc cs = Element NAMESPACES_rdf ''RDF'' [] [ebookEl cs]"

definition rightsEl :: "string \<Rightarrow> node" where
  "rightsEl t = Element NAMESPACES_dc ''rights'' [] [TextNode t]"

definition typeEl :: node where
  "typeEl = described NAMESPACES_dc ''type'' [rdfValue ''Text'']"

definition subjectsExample :: "node list" where
  "subjectsExample =
     [rightsEl ''Public domain in the USA.'', typeEl,
      subjectEl ''dc:LCSH'' [rdfValue ''Zebras''],
      subjectEl ''other'' [rdfValue ''Ignored''],
      subjectEl ''dc:LCSH'' [rdfValue ''Apples'']]"

definition emptySubjectExample :: "node list" where
  "emptySubjectExample =
     [rightsEl ''Public domain in the USA.'', typeEl, subjectEl ''dc:LCSH'' []]"

definition htmlFile :: "string \<Rightarrow> node" where
  "htmlFile about = fileEl about [described NAMESPACES_dc ''format'' [rdfValue ''text/html'']]"

definition formatsExample :: "node list" where
  "formatsExample =
     [rightsEl ''Public domain in the USA.'', typeEl,
      htmlFile ''https://www.gutenberg.org/ebooks/11.html.noimages'',
      htmlFile ''https://www.gutenberg.org/ebooks/11.html.images'',
      htmlFile ''https://www.gutenberg.org/files/11/11-h/11-h.htm'']"

definition bookshelfExample :: "node list" where
  "bookshelfExample =
     [rightsEl ''Public domain in the USA.'', typeEl,
      described NAMESPACES_pg ''bookshelf'' [rdfValue ''Harvard Classics'']]"

definition storedExample :: "jsval list" where
  "storedExample =
     [Obj [(''_id'', Num 1), (''gutenbergId'', Num 11), (''title'', Str ''Old title''),
           (''downloads'', Num 5)]]"

section \<open>Title normalisation\<close>

lemma matchLineBreak_no_break:
  "\<forall>c \<in> set s. \<not> isBreak c \<Longrightarrow> matchLineBreak s = None"
proof -
  assume a: "\<forall>c \<in> set s. \<not> isBreak c"
  show ?thesis
  proof (cases "dropWhile isBlank s")
    case Nil
    then show ?thesis by (simp add: matchLineBreak_def del: dropWhile_eq_Nil_conv)
  next
    case (Cons c cs)
    then have "c \<in> set s"
      by (metis list.set_intros(1) set_dropWhileD)
    with a Cons show ?thesis by (simp add: matchLineBreak_def)
  qed
qed

lemma replaceLineBreaks_no_break:
  "\<forall>c \<in> set s. \<not> isBreak c \<Longrightarrow> replaceLineBreaks rep s = s"
proof (induction s)
  case Nil
  then show ?case by simp
next
  case (Cons c cs)
  then have "matchLineBreak (c # cs) = None"
    by (intro matchLineBreak_no_break) simp
  with Cons show ?case by simp
qed

lemma replaceLineBreaks_breakfree:
  "\<forall>c \<in> set rep. \<not> isBreak c \<Longrightarrow> \<forall>c \<in> set (replaceLineBreaks rep s). \<not> isBreak c"
proof (induction rep s rule: replaceLineBreaks.induct)
  case (1 rep)
  then show ?case by simp
next
  case (2 rep c cs)
  show ?case
  proof (cases "matchLineBreak (c # cs)")
    case None
    then have nb: "\<not> isBreak c"
      by (auto simp: matchLineBreak_def isBlank_def isBreak_def LF_def CR_def TAB_def
          split: list.splits if_splits)
    from 2 None nb show ?thesis by simp
  next
    case (Some rest)
    with 2 show ?thesis by auto
  qed
qed

lemma fixSubtitles_single_pass: "fixSubtitles title = replaceLineBreaks '': '' title"
proof -
  have "\<forall>c \<in> set '': ''. \<not> isBreak c"
    by (simp add: isBreak_def LF_def CR_def)
  then have "\<forall>c \<in> set (replaceLineBreaks '': '' title). \<not> isBreak c"
    by (rule replaceLineBreaks_breakfree)
  then show ?thesis
    by (simp add: fixSubtitles_def replaceLineBreaks_no_break)
qed

text \<open>
  C1. The title of the specification's example, \<^verbatim>\<open>"Alice\nIn Wonderland\nSecond Edition"\<close>:
  \<^verbatim>\<open>fixSubtitles\<close> puts \<^verbatim>\<open>": "\<close> at both line breaks, where the specification asks
  for \<^verbatim>\<open>"; "\<close> at the second one.
\<close>

theorem fixSubtitles_second_break_colon:
  "fixSubtitles (''Alice'' @ [LF] @ ''In Wonderland'' @ [LF] @ ''Second Edition'')
     = ''Alice: In Wonderland: Second Edition''"
  by (simp add: fixSubtitles_def matchLineBreak_def isBlank_def isBreak_def LF_def CR_def TAB_def)

section \<open>parseInt\<close>

text \<open>
  An identifier, a number between two doubles (the tie goes to the even significand),
  one nearer to the double above, a negative zero, a number of 309 digits, and a name
  with no leading digit.
\<close>

lemma parseInt_examples:
  "parseInt ''11'' = Num 11 \<and>
   parseInt ''9007199254740993'' = Num 9007199254740992 \<and>
   parseInt ''9007199254740995'' = Num 9007199254740996 \<and>
   parseInt ''-0'' = NegZero \<and>
   parseInt (''2'' @ replicate 308 CHR ''0'') = Infinity \<and>
   parseInt ''pg11'' = NaN"
  by code_simp

section \<open>What a returned record holds\<close>

lemma getBook_returns:
  assumes "getBook id' parsed = Inr r"
  shows "\<exists>root book copyright formats bookType languages.
     parsed = Inr (Some root) \<and>
     first (getElementsByTagNameNS NAMESPACES_pg ''ebook'' root) = Some book \<and>
     getCopyright book = Inr copyright \<and> getFormats book = Inr formats \<and>
     getType book = Inr bookType \<and> getLanguages book = Inr languages \<and>
     r = Obj [(''id'', parseInt id'), (''title'', getTitle book), (''authors'', getAuthors book),
              (''translators'', getTranslators book), (''type'', bookType),
              (''subjects'', getSubjects book), (''languages'', languages),
              (''formats'', formats), (''bookshelves'', getBookshelves book),
              (''copyright'', copyright)]"
  using assms by (auto simp: getBook_def split: sum.splits option.splits)

section \<open>Which documents make getBook throw\<close>

lemma first_None: "first xs = None \<longleftrightarrow> xs = []"
  by (cases xs) simp_all

lemma addFiles_throws_iff:
  "(\<exists>e. addFiles files formats = Inl e) \<longleftrightarrow>
     (\<exists>f \<in> set files. getElementsByTagNameNS NAMESPACES_dc ''format'' f = [])"
proof (induction files arbitrary: formats)
  case Nil
  then show ?case by simp
next
  case (Cons f files)
  show ?case
  proof (cases "getElementsByTagNameNS NAMESPACES_dc ''format'' f")
    case Nil
    then have "addFile f formats = Inl TypeError"
      by (simp add: addFile_def)
    with Nil show ?thesis by simp
  next
    case (Cons m ms)
    then have "\<exists>formats'. addFile f formats = Inr formats'"
      by (simp add: addFile_def split: option.splits)
    then obtain formats' where a: "addFile f formats = Inr formats'" ..
    with Cons Cons.IH [of formats'] show ?thesis by simp
  qed
qed

lemma addLanguages_throws_iff:
  "(\<exists>e. addLanguages ls languages = Inl e) \<longleftrightarrow>
     (\<exists>l \<in> set ls. getElementsByTagNameNS NAMESPACES_rdf ''value'' l = [])"
proof (induction ls arbitrary: languages)
  case Nil
  then show ?case by simp
next
  case (Cons l ls)
  show ?case
  proof (cases "getElementsByTagNameNS NAMESPACES_rdf ''value'' l")
    case Nil
    then show ?thesis by simp
  next
    case (Cons v vs)
    with Cons.IH [of "languages @ [Str (textContent v)]"] show ?thesis by simp
  qed
qed

lemma getBook_error_is_TypeError:
  assumes "getBook id' (Inr (Some root)) = Inl e"
  shows "e = TypeError"
proof -
  have f: "addFiles files formats = Inl x \<Longrightarrow> x = TypeError" for files formats x
    by (induction files arbitrary: formats)
      (auto simp: addFile_def split: sum.splits option.splits if_splits)
  have l: "addLanguages ls languages = Inl x \<Longrightarrow> x = TypeError" for ls languages x
    by (induction ls arbitrary: languages) (auto split: option.splits)
  from assms show ?thesis
    by (auto simp: getBook_def getCopyright_def getFormats_def getType_def getLanguages_def
        split: option.splits sum.splits if_splits dest: f l)
qed

text \<open>
  A parsed document makes \<^verbatim>\<open>getBook\<close> throw exactly when it has no \<^verbatim>\<open>pg:ebook\<close>
  element, or the book has no \<^verbatim>\<open>dc:rights\<close> element, a \<^verbatim>\<open>pg:file\<close> with no \<^verbatim>\<open>dc:format\<close>
  inside, no \<^verbatim>\<open>dc:type\<close> element, or a \<^verbatim>\<open>dc:language\<close> with no \<^verbatim>\<open>rdf:value\<close> inside.
\<close>

lemma getBook_throws_iff:
  "(\<exists>e. getBook id' (Inr (Some root)) = Inl e) \<longleftrightarrow>
     (case first (getElementsByTagNameNS NAMESPACES_pg ''ebook'' root) of
        None \<Rightarrow> True
      | Some book \<Rightarrow>
          getElementsByTagNameNS NAMESPACES_dc ''rights'' book = [] \<or>
          (\<exists>f \<in> set (getElementsByTagNameNS NAMESPACES_pg ''file'' book).
             getElementsByTagNameNS NAMESPACES_dc ''format'' f = []) \<or>
          getElementsByTagNameNS NAMESPACES_dc ''type'' book = [] \<or>
          (\<exists>l \<in> set (getElementsByTagNameNS NAMESPACES_dc ''language'' book).
             getElementsByTagNameNS NAMESPACES_rdf ''value'' l = []))"
proof (cases "first (getElementsByTagNameNS NAMESPACES_pg ''ebook'' root)")
  case None
  then show ?thesis by (simp add: getBook_def)
next
  case (Some book)
  have c: "(\<exists>e. getCopyright book = Inl e) \<longleftrightarrow>
      getElementsByTagNameNS NAMESPACES_dc ''rights'' book = []"
    by (auto simp: getCopyright_def first_None split: option.splits)
  have f: "(\<exists>e. getFormats book = Inl e) \<longleftrightarrow>
      (\<exists>f \<in> set (getElementsByTagNameNS NAMESPACES_pg ''file'' book).
             getElementsByTagNameNS NAMESPACES_dc ''format'' f = [])"
    unfolding addFiles_throws_iff [of _ "[]", symmetric]
    by (auto simp: getFormats_def split: sum.splits)
  have t: "(\<exists>e. getType book = Inl e) \<longleftrightarrow>
      getElementsByTagNameNS NAMESPACES_dc ''type'' book = []"
    by (auto simp: getType_def first_None split: option.splits)
  have l: "(\<exists>e. getLanguages book = Inl e) \<longleftrightarrow>
      (\<exists>l \<in> set (getElementsByTagNameNS NAMESPACES_dc ''language'' book).
             getElementsByTagNameNS NAMESPACES_rdf ''value'' l = [])"
    unfolding addLanguages_throws_iff [of _ "[]", symmetric]
    by (auto simp: getLanguages_def split: sum.splits)
  have "(\<exists>e. getBook id' (Inr (Some root)) = Inl e) \<longleftrightarrow>
      (\<exists>e. getCopyright book = Inl e) \<or> (\<exists>e. getFormats book = Inl e) \<or>
      (\<exists>e. getType book = Inl e) \<or> (\<exists>e. getLanguages book = Inl e)"
    using Some by (auto simp: getBook_def split: sum.splits)
  with Some show ?thesis
    unfolding c f t l by simp
qed

lemma addFiles_error:
  "addFiles files formats = Inl e \<Longrightarrow> e = TypeError"
  by (induction files arbitrary: formats)
    (auto simp: addFile_def split: sum.splits option.splits if_splits)

lemma getBook_returns_if:
  assumes "first (getElementsByTagNameNS NAMESPACES_pg ''ebook'' root) = Some book"
    and "getElementsByTagNameNS NAMESPACES_dc ''rights'' book \<noteq> []"
    and "\<forall>f \<in> set (getElementsByTagNameNS NAMESPACES_pg ''file'' book).
           getElementsByTagNameNS NAMESPACES_dc ''format'' f \<noteq> []"
    and "getElementsByTagNameNS NAMESPACES_dc ''type'' book \<noteq> []"
    and "\<forall>l \<in> set (getElementsByTagNameNS NAMESPACES_dc ''language'' book).
           getElementsByTagNameNS NAMESPACES_rdf ''value'' l \<noteq> []"
  shows "\<exists>r. getBook id' (Inr (Some root)) = Inr r"
proof -
  from assms have "\<not> (\<exists>e. getBook id' (Inr (Some root)) = Inl e)"
    unfolding getBook_throws_iff by auto
  then show ?thesis
    by (cases "getBook id' (Inr (Some root))") auto
qed

text \<open>
  C2. Two documents with a rights statement and a type, one with a \<^verbatim>\<open>dc:language\<close>
  element that holds no \<^verbatim>\<open>rdf:value\<close>, one with a \<^verbatim>\<open>pg:file\<close> element that holds no
  \<^verbatim>\<open>dc:format\<close>: \<^verbatim>\<open>getBook\<close> throws on both, though neither lacks the rights element.
\<close>

theorem getBook_throws_with_rights_present:
  "getBook ''11'' (Inr (Some (ebookDoc
       [rightsEl ''Public domain in the USA.'', typeEl,
        Element NAMESPACES_dc ''language'' [] []]))) = Inl TypeError \<and>
   getBook ''11'' (Inr (Some (ebookDoc
       [rightsEl ''Public domain in the USA.'', typeEl,
        fileEl ''https://www.gutenberg.org/ebooks/11.txt.utf-8'' []]))) = Inl TypeError"
  by code_simp

section \<open>Copyright\<close>

lemma startsWith_prefix: "startsWith s p \<longleftrightarrow> prefix p s"
proof
  assume "startsWith s p"
  then have "take (length p) s = p" by (simp add: startsWith_def)
  then show "prefix p s" by (metis take_is_prefix)
next
  assume "prefix p s"
  then show "startsWith s p" by (auto simp: startsWith_def prefix_def)
qed

lemma prefixes_exclusive:
  "\<not> (prefix ''Public domain in the USA.'' t \<and> prefix ''Copyrighted.'' t)"
  by (auto simp: prefix_def)

lemma getCopyright_classifies:
  assumes "first (getElementsByTagNameNS NAMESPACES_dc ''rights'' book) = Some rights"
  shows "getCopyright book =
     Inr (if prefix ''Public domain in the USA.'' (textContent rights) then Bool False
          else if prefix ''Copyrighted.'' (textContent rights) then Bool True else Null)"
  using assms by (simp add: getCopyright_def startsWith_prefix)

text \<open>
  C6. A document whose other blocks do not throw and whose first \<^verbatim>\<open>dc:rights\<close> element
  has the text \<open>t\<close>: \<^verbatim>\<open>getBook\<close> returns a record, and its \<^verbatim>\<open>copyright\<close> is \<^verbatim>\<open>false\<close>
  exactly when \<open>t\<close> starts with \<^verbatim>\<open>"Public domain in the USA."\<close>, \<^verbatim>\<open>true\<close> exactly when it
  starts with \<^verbatim>\<open>"Copyrighted."\<close>, and \<^verbatim>\<open>null\<close> exactly when it starts with neither;
  \<open>prefix p t\<close> is \<open>\<exists>u. t = p @ u\<close>, so a later occurrence of the words does not count.
\<close>

theorem getBook_copyright_prefix:
  assumes "first (getElementsByTagNameNS NAMESPACES_pg ''ebook'' root) = Some book"
    and "first (getElementsByTagNameNS NAMESPACES_dc ''rights'' book) = Some rights"
    and "\<forall>f \<in> set (getElementsByTagNameNS NAMESPACES_pg ''file'' book).
           getElementsByTagNameNS NAMESPACES_dc ''format'' f \<noteq> []"
    and "getElementsByTagNameNS NAMESPACES_dc ''type'' book \<noteq> []"
    and "\<forall>l \<in> set (getElementsByTagNameNS NAMESPACES_dc ''language'' book).
           getElementsByTagNameNS NAMESPACES_rdf ''value'' l \<noteq> []"
  shows "\<exists>r. getBook id' (Inr (Some root)) = Inr r \<and>
     (getProp r ''copyright'' = Bool False
        \<longleftrightarrow> prefix ''Public domain in the USA.'' (textContent rights)) \<and>
     (getProp r ''copyright'' = Bool True \<longleftrightarrow> prefix ''Copyrighted.'' (textContent rights)) \<and>
     (getProp r ''copyright'' = Null
        \<longleftrightarrow> \<not> prefix ''Public domain in the USA.'' (textContent rights) \<and>
            \<not> prefix ''Copyrighted.'' (textContent rights))"
proof -
  from assms(2) have "getElementsByTagNameNS NAMESPACES_dc ''rights'' book \<noteq> []"
    by auto
  from getBook_returns_if [OF assms(1) this assms(3-5)] obtain r
    where g: "getBook id' (Inr (Some root)) = Inr r" ..
  from getBook_returns [OF g] assms(1) obtain copyright
    where c: "getCopyright book = Inr copyright"
      and r: "getProp r ''copyright'' = copyright"
    by auto
  from getCopyright_classifies [OF assms(2)] c
  have v: "copyright =
     (if prefix ''Public domain in the USA.'' (textContent rights) then Bool False
      else if prefix ''Copyrighted.'' (textContent rights) then Bool True else Null)"
    by simp
  have "(copyright = Bool False
        \<longleftrightarrow> prefix ''Public domain in the USA.'' (textContent rights)) \<and>
     (copyright = Bool True \<longleftrightarrow> prefix ''Copyrighted.'' (textContent rights)) \<and>
     (copyright = Null
        \<longleftrightarrow> \<not> prefix ''Public domain in the USA.'' (textContent rights) \<and>
            \<not> prefix ''Copyrighted.'' (textContent rights))"
    using prefixes_exclusive [of "textContent rights"] unfolding v by auto
  with g r show ?thesis by blast
qed

lemma first_ebookDoc:
  "first (getElementsByTagNameNS NAMESPACES_pg ''ebook'' (ebookDoc cs)) = Some (ebookEl cs)"
  by (simp add: ebookDoc_def ebookEl_def getElementsByTagNameNS_def)

text \<open>
  Three rights statements: one of each prefix, and \<^verbatim>\<open>"Not Copyrighted."\<close>, which holds
  \<^verbatim>\<open>"Copyrighted."\<close> but does not start with it.
\<close>

theorem getBook_copyright_prefix_witness:
  "(\<exists>r. getBook ''11'' (Inr (Some (ebookDoc [rightsEl ''Public domain in the USA.'', typeEl])))
        = Inr r \<and> getProp r ''copyright'' = Bool False) \<and>
   (\<exists>r. getBook ''11'' (Inr (Some (ebookDoc [rightsEl ''Copyrighted. Read the notice.'', typeEl])))
        = Inr r \<and> getProp r ''copyright'' = Bool True) \<and>
   (\<exists>r. getBook ''11'' (Inr (Some (ebookDoc [rightsEl ''Not Copyrighted.'', typeEl])))
        = Inr r \<and> getProp r ''copyright'' = Null)"
proof -
  have k: "\<exists>r. getBook ''11'' (Inr (Some (ebookDoc [rightsEl t, typeEl]))) = Inr r \<and>
     (getProp r ''copyright'' = Bool False \<longleftrightarrow> prefix ''Public domain in the USA.'' t) \<and>
     (getProp r ''copyright'' = Bool True \<longleftrightarrow> prefix ''Copyrighted.'' t) \<and>
     (getProp r ''copyright'' = Null
        \<longleftrightarrow> \<not> prefix ''Public domain in the USA.'' t \<and> \<not> prefix ''Copyrighted.'' t)" for t
  proof -
    have r: "first (getElementsByTagNameNS NAMESPACES_dc ''rights'' (ebookEl [rightsEl t, typeEl]))
       = Some (rightsEl t)"
      by (simp add: ebookEl_def rightsEl_def typeEl_def described_def rdfValue_def
          getElementsByTagNameNS_def NAMESPACES_dc_def NAMESPACES_rdf_def)
    have f: "\<forall>f \<in> set (getElementsByTagNameNS NAMESPACES_pg ''file'' (ebookEl [rightsEl t, typeEl])).
           getElementsByTagNameNS NAMESPACES_dc ''format'' f \<noteq> []"
      by (simp add: ebookEl_def rightsEl_def typeEl_def described_def rdfValue_def
          getElementsByTagNameNS_def NAMESPACES_dc_def NAMESPACES_rdf_def NAMESPACES_pg_def)
    have y: "getElementsByTagNameNS NAMESPACES_dc ''type'' (ebookEl [rightsEl t, typeEl]) \<noteq> []"
      by (simp add: ebookEl_def rightsEl_def typeEl_def described_def rdfValue_def
          getElementsByTagNameNS_def NAMESPACES_dc_def NAMESPACES_rdf_def)
    have l: "\<forall>l \<in> set (getElementsByTagNameNS NAMESPACES_dc ''language'' (ebookEl [rightsEl t, typeEl])).
           getElementsByTagNameNS NAMESPACES_rdf ''value'' l \<noteq> []"
      by (simp add: ebookEl_def rightsEl_def typeEl_def described_def rdfValue_def
          getElementsByTagNameNS_def NAMESPACES_dc_def NAMESPACES_rdf_def)
    have t: "textContent (rightsEl t) = t"
      by (simp add: rightsEl_def)
    from getBook_copyright_prefix [OF first_ebookDoc r f y l, of "''11''"]
    show ?thesis unfolding t .
  qed
  have a: "prefix ''Public domain in the USA.'' ''Public domain in the USA.''"
    by simp
  have b: "prefix ''Copyrighted.'' ''Copyrighted. Read the notice.''"
    by simp
  have c: "\<not> prefix ''Public domain in the USA.'' ''Not Copyrighted.'' \<and>
      \<not> prefix ''Copyrighted.'' ''Not Copyrighted.''"
    by simp
  from k [of "''Public domain in the USA.''"] a
  have 1: "\<exists>r. getBook ''11'' (Inr (Some (ebookDoc [rightsEl ''Public domain in the USA.'', typeEl])))
        = Inr r \<and> getProp r ''copyright'' = Bool False"
    by (elim exE conjE) (rule exI, simp)
  from k [of "''Copyrighted. Read the notice.''"] b
  have 2: "\<exists>r. getBook ''11'' (Inr (Some (ebookDoc [rightsEl ''Copyrighted. Read the notice.'', typeEl])))
        = Inr r \<and> getProp r ''copyright'' = Bool True"
    by (elim exE conjE) (rule exI, simp)
  from k [of "''Not Copyrighted.''"] c
  have 3: "\<exists>r. getBook ''11'' (Inr (Some (ebookDoc [rightsEl ''Not Copyrighted.'', typeEl])))
        = Inr r \<and> getProp r ''copyright'' = Null"
    by (elim exE conjE) (rule exI, simp)
  from 1 2 3 show ?thesis by (intro conjI)
qed

section \<open>Subjects\<close>

lemma subjectEntry_kept:
  "List.map_filter subjectEntry subjects =
     map (\<lambda>s. map_option textContent (first (getElementsByTagNameNS NAMESPACES_rdf ''value'' s)))
       (filter (\<lambda>s. case first (getElementsByTagNameNS NAMESPACES_dcam ''memberOf'' s) of
                       None \<Rightarrow> False
                     | Some m \<Rightarrow> getAttribute m ''rdf:resource'' = ''dc:LCSH'') subjects)"
  by (induction subjects) (auto simp: List.map_filter_simps subjectEntry_def split: option.splits)

lemma filter_None_replicate:
  "filter (\<lambda>x. x = None) xs = replicate (length (filter (\<lambda>x. x = None) xs)) None"
  by (induction xs) auto

lemma mset_split_options:
  "mset (map Some (List.map_filter id xs)) + mset (filter (\<lambda>x. x = None) xs) = mset xs"
  by (induction xs) (auto simp: List.map_filter_simps split: option.splits)

lemma sortDefault_shape:
  "\<exists>strs n. sortDefault xs = map Some strs @ replicate n None \<and> sorted strs \<and>
     mset (map Some strs @ replicate n None) = mset xs"
proof -
  let ?strs = "sort (List.map_filter id xs)"
  let ?n = "length (filter (\<lambda>x. x = None) xs)"
  have a: "sortDefault xs = map Some ?strs @ replicate ?n None"
    using filter_None_replicate [of xs] by (simp add: sortDefault_def)
  have "mset (map Some ?strs) = mset (map Some (List.map_filter id xs))"
    by simp
  then have "mset (map Some ?strs @ replicate ?n None) = mset xs"
    using mset_split_options [of xs] filter_None_replicate [of xs] by simp
  with a show ?thesis
    using sorted_sort by blast
qed

lemma optStr_list:
  "map optStr (map Some strs @ replicate n None) = map Str strs @ replicate n Undefined"
  by (simp add: optStr_def)

text \<open>
  C7. The \<^verbatim>\<open>subjects\<close> of a returned record are the values of exactly the \<^verbatim>\<open>dc:subject\<close>
  elements whose first \<^verbatim>\<open>dcam:memberOf\<close> has \<^verbatim>\<open>rdf:resource\<close> equal to \<^verbatim>\<open>"dc:LCSH"\<close>, each
  as often as it occurs: the strings in ascending lexicographic order, then one
  \<^verbatim>\<open>undefined\<close> for every kept subject that has no value (C10).
\<close>

theorem getBook_subjects_LCSH_sorted:
  assumes "getBook id' (Inr (Some root)) = Inr r"
    and "first (getElementsByTagNameNS NAMESPACES_pg ''ebook'' root) = Some book"
  shows "\<exists>strs n.
     getProp r ''subjects'' = Arr (map Str strs @ replicate n Undefined) \<and>
     sorted strs \<and>
     mset (map Some strs @ replicate n None) =
       mset (map (\<lambda>s. map_option textContent
                    (first (getElementsByTagNameNS NAMESPACES_rdf ''value'' s)))
               (filter (\<lambda>s. case first (getElementsByTagNameNS NAMESPACES_dcam ''memberOf'' s) of
                               None \<Rightarrow> False
                             | Some m \<Rightarrow> getAttribute m ''rdf:resource'' = ''dc:LCSH'')
                  (getElementsByTagNameNS NAMESPACES_dc ''subject'' book)))"
proof -
  from getBook_returns [OF assms(1)] assms(2)
  have s: "getProp r ''subjects'' = getSubjects book"
    by auto
  let ?pushed = "List.map_filter subjectEntry (getElementsByTagNameNS NAMESPACES_dc ''subject'' book)"
  from sortDefault_shape [of ?pushed] obtain strs n
    where d: "sortDefault ?pushed = map Some strs @ replicate n None"
      and o: "sorted strs"
      and m: "mset (map Some strs @ replicate n None) = mset ?pushed"
    by blast
  have "getProp r ''subjects'' = Arr (map Str strs @ replicate n Undefined)"
    unfolding s getSubjects_def d optStr_list ..
  with o m show ?thesis
    unfolding subjectEntry_kept by blast
qed

theorem getBook_subjects_LCSH_sorted_witness:
  "\<exists>r. getBook ''11'' (Inr (Some (ebookDoc subjectsExample))) = Inr r \<and>
     getProp r ''subjects'' = Arr [Str ''Apples'', Str ''Zebras''] \<and>
     (\<exists>strs n.
        getProp r ''subjects'' = Arr (map Str strs @ replicate n Undefined) \<and>
        sorted strs \<and>
        mset (map Some strs @ replicate n None) =
          mset (map (\<lambda>s. map_option textContent
                       (first (getElementsByTagNameNS NAMESPACES_rdf ''value'' s)))
                  (filter (\<lambda>s. case first (getElementsByTagNameNS NAMESPACES_dcam ''memberOf'' s) of
                                  None \<Rightarrow> False
                                | Some m \<Rightarrow> getAttribute m ''rdf:resource'' = ''dc:LCSH'')
                     (getElementsByTagNameNS NAMESPACES_dc ''subject'' (ebookEl subjectsExample)))))"
proof -
  have h: "getBook ''11'' (Inr (Some (ebookDoc subjectsExample))) =
     Inr (Obj [(''id'', Num 11), (''title'', Null), (''authors'', Arr []),
               (''translators'', Arr []), (''type'', Str ''Text''),
               (''subjects'', Arr [Str ''Apples'', Str ''Zebras'']),
               (''languages'', Arr []), (''formats'', Arr []), (''bookshelves'', Arr []),
               (''copyright'', Bool False)])"
    by code_simp
  have n: "getProp (Obj [(''id'', Num 11), (''title'', Null), (''authors'', Arr []),
               (''translators'', Arr []), (''type'', Str ''Text''),
               (''subjects'', Arr [Str ''Apples'', Str ''Zebras'']),
               (''languages'', Arr []), (''formats'', Arr []), (''bookshelves'', Arr []),
               (''copyright'', Bool False)]) ''subjects'' = Arr [Str ''Apples'', Str ''Zebras'']"
    by simp
  from getBook_subjects_LCSH_sorted [OF h first_ebookDoc] h n show ?thesis by blast
qed

lemma set_map_filter: "set (List.map_filter f xs) = {y. \<exists>x \<in> set xs. f x = Some y}"
  by (induction xs) (auto simp: List.map_filter_simps split: option.splits)

lemma sortDefault_set: "set (sortDefault xs) = set xs"
proof -
  from sortDefault_shape [of xs] have "mset (sortDefault xs) = mset xs"
    by auto
  then show ?thesis by (rule mset_eq_setD)
qed

text \<open>
  C10. A \<^verbatim>\<open>dc:subject\<close> element of the LCSH scheme that holds no \<^verbatim>\<open>rdf:value\<close> element
  (the lookup is \<^verbatim>\<open>getElementsByTagNameNS\<close>, at any depth) still pushes an entry: the
  \<^verbatim>\<open>subjects\<close> of the returned record hold \<^verbatim>\<open>undefined\<close>, so they are not all strings.
\<close>

theorem getBook_subject_without_value:
  assumes "getBook id' (Inr (Some root)) = Inr r"
    and "first (getElementsByTagNameNS NAMESPACES_pg ''ebook'' root) = Some book"
    and "s \<in> set (getElementsByTagNameNS NAMESPACES_dc ''subject'' book)"
    and "first (getElementsByTagNameNS NAMESPACES_dcam ''memberOf'' s) = Some m"
    and "getAttribute m ''rdf:resource'' = ''dc:LCSH''"
    and "getElementsByTagNameNS NAMESPACES_rdf ''value'' s = []"
  shows "\<exists>xs. getProp r ''subjects'' = Arr xs \<and> Undefined \<in> set xs \<and>
     \<not> (\<forall>x \<in> set xs. \<exists>t. x = Str t)"
proof -
  from getBook_returns [OF assms(1)] assms(2)
  have g: "getProp r ''subjects'' = getSubjects book"
    by auto
  let ?pushed = "List.map_filter subjectEntry (getElementsByTagNameNS NAMESPACES_dc ''subject'' book)"
  have "subjectEntry s = Some None"
    using assms(4-6) by (simp add: subjectEntry_def)
  with assms(3) have "None \<in> set ?pushed"
    unfolding set_map_filter by blast
  then have "None \<in> set (sortDefault ?pushed)"
    by (simp only: sortDefault_set)
  then have "optStr None \<in> set (map optStr (sortDefault ?pushed))"
    by simp
  then have u: "Undefined \<in> set (map optStr (sortDefault ?pushed))"
    by (simp add: optStr_def)
  have "getProp r ''subjects'' = Arr (map optStr (sortDefault ?pushed))"
    unfolding g getSubjects_def ..
  with u show ?thesis by blast
qed

theorem getBook_subject_without_value_witness:
  "\<exists>r. getBook ''11'' (Inr (Some (ebookDoc emptySubjectExample))) = Inr r \<and>
     getProp r ''subjects'' = Arr [Undefined] \<and>
     (\<exists>xs. getProp r ''subjects'' = Arr xs \<and> Undefined \<in> set xs \<and>
        \<not> (\<forall>x \<in> set xs. \<exists>t. x = Str t))"
proof -
  let ?m = "Element NAMESPACES_dcam ''memberOf'' [(''rdf:resource'', ''dc:LCSH'')] []"
  have h: "getBook ''11'' (Inr (Some (ebookDoc emptySubjectExample))) =
     Inr (Obj [(''id'', Num 11), (''title'', Null), (''authors'', Arr []),
               (''translators'', Arr []), (''type'', Str ''Text''),
               (''subjects'', Arr [Undefined]),
               (''languages'', Arr []), (''formats'', Arr []), (''bookshelves'', Arr []),
               (''copyright'', Bool False)])"
    by code_simp
  have n: "getProp (Obj [(''id'', Num 11), (''title'', Null), (''authors'', Arr []),
               (''translators'', Arr []), (''type'', Str ''Text''),
               (''subjects'', Arr [Undefined]),
               (''languages'', Arr []), (''formats'', Arr []), (''bookshelves'', Arr []),
               (''copyright'', Bool False)]) ''subjects'' = Arr [Undefined]"
    by simp
  have s: "subjectEl ''dc:LCSH'' [] \<in>
     set (getElementsByTagNameNS NAMESPACES_dc ''subject'' (ebookEl emptySubjectExample))"
    by code_simp
  have m: "first (getElementsByTagNameNS NAMESPACES_dcam ''memberOf'' (subjectEl ''dc:LCSH'' []))
     = Some ?m"
    by code_simp
  have a: "getAttribute ?m ''rdf:resource'' = ''dc:LCSH''"
    by simp
  have v: "getElementsByTagNameNS NAMESPACES_rdf ''value'' (subjectEl ''dc:LCSH'' []) = []"
    by code_simp
  from getBook_subject_without_value [OF h first_ebookDoc s m a v] h n
  show ?thesis by blast
qed

section \<open>Formats\<close>

lemma includes_str_sublist: "includes_str s p \<longleftrightarrow> sublist p s"
  by (induction s) (simp_all add: sublist_Cons_right startsWith_prefix)

lemma addFile_no_format:
  "first (getElementsByTagNameNS NAMESPACES_dc ''format'' file) = None \<Longrightarrow>
     addFile file formats = Inl TypeError"
  by (simp add: addFile_def)

lemma addFile_no_value:
  "first (getElementsByTagNameNS NAMESPACES_dc ''format'' file) = Some fmt \<Longrightarrow>
   first (getElementsByTagNameNS NAMESPACES_rdf ''value'' fmt) = None \<Longrightarrow>
     addFile file formats = Inr formats"
  by (simp add: addFile_def)

lemma addFile_value:
  "first (getElementsByTagNameNS NAMESPACES_dc ''format'' file) = Some fmt \<Longrightarrow>
   first (getElementsByTagNameNS NAMESPACES_rdf ''value'' fmt) = Some ct \<Longrightarrow>
     addFile file formats =
       Inr (if (\<forall>f \<in> set formats. contentType f \<noteq> textContent ct) \<or>
               (\<exists>f \<in> set formats. contentType f = textContent ct \<and> sublist ''noimages'' (url f))
            then formats @ [\<lparr>contentType = textContent ct, url = getAttribute file ''rdf:about''\<rparr>]
            else formats)"
  by (simp add: addFile_def list_ex_iff includes_str_sublist)

lemma addFiles_noimages_pair:
  assumes "first (getElementsByTagNameNS NAMESPACES_dc ''format'' f1) = Some m1"
    and "first (getElementsByTagNameNS NAMESPACES_rdf ''value'' m1) = Some v1"
    and "first (getElementsByTagNameNS NAMESPACES_dc ''format'' f2) = Some m2"
    and "first (getElementsByTagNameNS NAMESPACES_rdf ''value'' m2) = Some v2"
    and "textContent v2 = textContent v1"
    and "sublist ''noimages'' (getAttribute f1 ''rdf:about'')"
  shows "addFiles [f1, f2] [] =
     Inr [\<lparr>contentType = textContent v1, url = getAttribute f1 ''rdf:about''\<rparr>,
          \<lparr>contentType = textContent v1, url = getAttribute f2 ''rdf:about''\<rparr>]"
proof -
  have a: "addFile f1 [] = Inr [\<lparr>contentType = textContent v1, url = getAttribute f1 ''rdf:about''\<rparr>]"
    using addFile_value [OF assms(1,2), of "[]"] by simp
  have "addFile f2 [\<lparr>contentType = textContent v1, url = getAttribute f1 ''rdf:about''\<rparr>] =
     Inr [\<lparr>contentType = textContent v1, url = getAttribute f1 ''rdf:about''\<rparr>,
          \<lparr>contentType = textContent v1, url = getAttribute f2 ''rdf:about''\<rparr>]"
    using addFile_value [OF assms(3,4)] assms(5,6) by simp
  with a show ?thesis by simp
qed

lemma getBook_formats:
  assumes "getBook id' (Inr (Some root)) = Inr r"
    and "first (getElementsByTagNameNS NAMESPACES_pg ''ebook'' root) = Some book"
  shows "\<exists>fs. addFiles (getElementsByTagNameNS NAMESPACES_pg ''file'' book) [] = Inr fs \<and>
     getProp r ''formats'' = Arr (map formatObj fs)"
proof -
  from getBook_returns [OF assms(1)] assms(2) obtain formats
    where "getFormats book = Inr formats" and "getProp r ''formats'' = formats"
    by auto
  then show ?thesis
    by (auto simp: getFormats_def split: sum.splits)
qed

lemma addFiles_spec:
  "\<forall>f \<in> set files. getElementsByTagNameNS NAMESPACES_dc ''format'' f \<noteq> [] \<Longrightarrow>
     addFiles files formats = Inr (spec_formats files formats)"
proof (induction files arbitrary: formats)
  case Nil
  then show ?case by simp
next
  case (Cons f files)
  then obtain m where m: "first (getElementsByTagNameNS NAMESPACES_dc ''format'' f) = Some m"
    by (cases "getElementsByTagNameNS NAMESPACES_dc ''format'' f") auto
  show ?case
  proof (cases "first (getElementsByTagNameNS NAMESPACES_rdf ''value'' m)")
    case None
    with m have "fileContentType f = None"
      by (simp add: fileContentType_def)
    with addFile_no_value [OF m None, of formats] Cons show ?thesis
      by simp
  next
    case (Some ct)
    with m have "fileContentType f = Some (textContent ct)"
      by (simp add: fileContentType_def)
    with addFile_value [OF m Some, of formats] Cons show ?thesis
      by (simp add: spec_keeps_def)
  qed
qed

lemma addFiles_throws:
  "\<exists>f \<in> set files. getElementsByTagNameNS NAMESPACES_dc ''format'' f = [] \<Longrightarrow>
     addFiles files formats = Inl TypeError"
  using addFiles_throws_iff [of files formats] addFiles_error [of files formats] by auto

lemma getBook_formats_spec:
  assumes "getBook id' (Inr (Some root)) = Inr r"
    and "first (getElementsByTagNameNS NAMESPACES_pg ''ebook'' root) = Some book"
  shows "getProp r ''formats'' =
     Arr (map formatObj (spec_formats (getElementsByTagNameNS NAMESPACES_pg ''file'' book) []))"
proof -
  let ?files = "getElementsByTagNameNS NAMESPACES_pg ''file'' book"
  from getBook_formats [OF assms] obtain fs
    where a: "addFiles ?files [] = Inr fs" and g: "getProp r ''formats'' = Arr (map formatObj fs)"
    by blast
  from a have "\<not> (\<exists>e. addFiles ?files [] = Inl e)"
    by simp
  then have "\<forall>f \<in> set ?files. getElementsByTagNameNS NAMESPACES_dc ''format'' f \<noteq> []"
    unfolding addFiles_throws_iff by simp
  from addFiles_spec [OF this, of "[]"] a have "fs = spec_formats ?files []"
    by simp
  with g show ?thesis by simp
qed

text \<open>
  C4. The loop over the \<^verbatim>\<open>pg:file\<close> elements. One turn, for a file that has a
  \<^verbatim>\<open>dc:format\<close> element: the pair of the content type and the \<^verbatim>\<open>rdf:about\<close> url is
  appended exactly when the format holds a value and either no kept pair has that
  content type or some kept pair has it with a url that holds \<^verbatim>\<open>"noimages"\<close>; a file
  with no \<^verbatim>\<open>dc:format\<close> element appends nothing: the turn throws. The whole loop, for
  every sequence of files and every list of kept pairs: it gives what the rule in the
  specification's words gives (\<open>spec_formats\<close>) when every file has a \<^verbatim>\<open>dc:format\<close>, and
  throws otherwise. \<^verbatim>\<open>getBook\<close> returns a record on every document whose blocks do not
  throw, and the \<^verbatim>\<open>formats\<close> of every record it returns are those of the rule, started
  from none. Of two files of one type, the first with \<^verbatim>\<open>"noimages"\<close> in its url, both are
  kept in order.
\<close>

theorem getBook_formats_keep_rule:
  "(\<forall>file formats fmt.
      first (getElementsByTagNameNS NAMESPACES_dc ''format'' file) = Some fmt \<longrightarrow>
      addFile file formats =
        Inr (case first (getElementsByTagNameNS NAMESPACES_rdf ''value'' fmt) of
               None \<Rightarrow> formats
             | Some ct \<Rightarrow>
                 if (\<forall>f \<in> set formats. contentType f \<noteq> textContent ct) \<or>
                    (\<exists>f \<in> set formats. contentType f = textContent ct \<and>
                       sublist ''noimages'' (url f))
                 then formats @
                   [\<lparr>contentType = textContent ct, url = getAttribute file ''rdf:about''\<rparr>]
                 else formats)) \<and>
   (\<forall>file formats.
      first (getElementsByTagNameNS NAMESPACES_dc ''format'' file) = None \<longrightarrow>
      addFile file formats = Inl TypeError) \<and>
   (\<forall>files formats.
      (\<forall>f \<in> set files. getElementsByTagNameNS NAMESPACES_dc ''format'' f \<noteq> []) \<longrightarrow>
      addFiles files formats = Inr (spec_formats files formats)) \<and>
   (\<forall>files formats.
      (\<exists>f \<in> set files. getElementsByTagNameNS NAMESPACES_dc ''format'' f = []) \<longrightarrow>
      addFiles files formats = Inl TypeError) \<and>
   (\<forall>id' root book.
      first (getElementsByTagNameNS NAMESPACES_pg ''ebook'' root) = Some book \<and>
      getElementsByTagNameNS NAMESPACES_dc ''rights'' book \<noteq> [] \<and>
      (\<forall>f \<in> set (getElementsByTagNameNS NAMESPACES_pg ''file'' book).
         getElementsByTagNameNS NAMESPACES_dc ''format'' f \<noteq> []) \<and>
      getElementsByTagNameNS NAMESPACES_dc ''type'' book \<noteq> [] \<and>
      (\<forall>l \<in> set (getElementsByTagNameNS NAMESPACES_dc ''language'' book).
         getElementsByTagNameNS NAMESPACES_rdf ''value'' l \<noteq> []) \<longrightarrow>
      (\<exists>r. getBook id' (Inr (Some root)) = Inr r)) \<and>
   (\<forall>id' root r book.
      getBook id' (Inr (Some root)) = Inr r \<and>
      first (getElementsByTagNameNS NAMESPACES_pg ''ebook'' root) = Some book \<longrightarrow>
      getProp r ''formats'' =
        Arr (map formatObj
          (spec_formats (getElementsByTagNameNS NAMESPACES_pg ''file'' book) []))) \<and>
   (\<forall>f1 m1 v1 f2 m2 v2.
      first (getElementsByTagNameNS NAMESPACES_dc ''format'' f1) = Some m1 \<and>
      first (getElementsByTagNameNS NAMESPACES_rdf ''value'' m1) = Some v1 \<and>
      first (getElementsByTagNameNS NAMESPACES_dc ''format'' f2) = Some m2 \<and>
      first (getElementsByTagNameNS NAMESPACES_rdf ''value'' m2) = Some v2 \<and>
      textContent v2 = textContent v1 \<and>
      sublist ''noimages'' (getAttribute f1 ''rdf:about'') \<longrightarrow>
      addFiles [f1, f2] [] =
        Inr [\<lparr>contentType = textContent v1, url = getAttribute f1 ''rdf:about''\<rparr>,
             \<lparr>contentType = textContent v1, url = getAttribute f2 ''rdf:about''\<rparr>])"
proof (intro conjI allI impI)
  fix fl formats fmt
  assume f: "first (getElementsByTagNameNS NAMESPACES_dc ''format'' fl) = Some fmt"
  show "addFile fl formats =
        Inr (case first (getElementsByTagNameNS NAMESPACES_rdf ''value'' fmt) of
               None \<Rightarrow> formats
             | Some ct \<Rightarrow>
                 if (\<forall>f \<in> set formats. contentType f \<noteq> textContent ct) \<or>
                    (\<exists>f \<in> set formats. contentType f = textContent ct \<and>
                       sublist ''noimages'' (url f))
                 then formats @
                   [\<lparr>contentType = textContent ct, url = getAttribute fl ''rdf:about''\<rparr>]
                 else formats)"
  proof (cases "first (getElementsByTagNameNS NAMESPACES_rdf ''value'' fmt)")
    case None
    with addFile_no_value [OF f None] show ?thesis by simp
  next
    case (Some ct)
    with addFile_value [OF f Some] show ?thesis by simp
  qed
next
  fix fl formats
  assume "first (getElementsByTagNameNS NAMESPACES_dc ''format'' fl) = None"
  then show "addFile fl formats = Inl TypeError"
    by (rule addFile_no_format)
next
  fix files formats
  assume "\<forall>f \<in> set files. getElementsByTagNameNS NAMESPACES_dc ''format'' f \<noteq> []"
  then show "addFiles files formats = Inr (spec_formats files formats)"
    by (rule addFiles_spec)
next
  fix files formats
  assume "\<exists>f \<in> set files. getElementsByTagNameNS NAMESPACES_dc ''format'' f = []"
  then show "addFiles files formats = Inl TypeError"
    by (rule addFiles_throws)
next
  fix id' root book
  assume "first (getElementsByTagNameNS NAMESPACES_pg ''ebook'' root) = Some book \<and>
      getElementsByTagNameNS NAMESPACES_dc ''rights'' book \<noteq> [] \<and>
      (\<forall>f \<in> set (getElementsByTagNameNS NAMESPACES_pg ''file'' book).
         getElementsByTagNameNS NAMESPACES_dc ''format'' f \<noteq> []) \<and>
      getElementsByTagNameNS NAMESPACES_dc ''type'' book \<noteq> [] \<and>
      (\<forall>l \<in> set (getElementsByTagNameNS NAMESPACES_dc ''language'' book).
         getElementsByTagNameNS NAMESPACES_rdf ''value'' l \<noteq> [])"
  then show "\<exists>r. getBook id' (Inr (Some root)) = Inr r"
    using getBook_returns_if by blast
next
  fix id' root r book
  assume "getBook id' (Inr (Some root)) = Inr r \<and>
      first (getElementsByTagNameNS NAMESPACES_pg ''ebook'' root) = Some book"
  then show "getProp r ''formats'' =
        Arr (map formatObj
          (spec_formats (getElementsByTagNameNS NAMESPACES_pg ''file'' book) []))"
    using getBook_formats_spec by blast
next
  fix f1 m1 v1 f2 m2 v2
  assume "first (getElementsByTagNameNS NAMESPACES_dc ''format'' f1) = Some m1 \<and>
      first (getElementsByTagNameNS NAMESPACES_rdf ''value'' m1) = Some v1 \<and>
      first (getElementsByTagNameNS NAMESPACES_dc ''format'' f2) = Some m2 \<and>
      first (getElementsByTagNameNS NAMESPACES_rdf ''value'' m2) = Some v2 \<and>
      textContent v2 = textContent v1 \<and>
      sublist ''noimages'' (getAttribute f1 ''rdf:about'')"
  then show "addFiles [f1, f2] [] =
        Inr [\<lparr>contentType = textContent v1, url = getAttribute f1 ''rdf:about''\<rparr>,
             \<lparr>contentType = textContent v1, url = getAttribute f2 ''rdf:about''\<rparr>]"
    using addFiles_noimages_pair by blast
qed

text \<open>
  Three \<^verbatim>\<open>text/html\<close> files, the first a \<^verbatim>\<open>noimages\<close> one: the first two are the
  specification's example, and the third is kept as well.
\<close>

theorem getBook_formats_keep_rule_witness:
  "addFiles [htmlFile ''https://www.gutenberg.org/ebooks/11.html.noimages'',
             htmlFile ''https://www.gutenberg.org/ebooks/11.html.images''] [] =
     Inr [\<lparr>contentType = ''text/html'',
            url = ''https://www.gutenberg.org/ebooks/11.html.noimages''\<rparr>,
          \<lparr>contentType = ''text/html'',
            url = ''https://www.gutenberg.org/ebooks/11.html.images''\<rparr>] \<and>
   (\<exists>r. getBook ''11'' (Inr (Some (ebookDoc formatsExample))) = Inr r \<and>
      getProp r ''formats'' =
        Arr (map formatObj
          (spec_formats
             (getElementsByTagNameNS NAMESPACES_pg ''file'' (ebookEl formatsExample)) [])) \<and>
      getProp r ''formats'' =
        Arr [Obj [(''contentType'', Str ''text/html''),
                  (''url'', Str ''https://www.gutenberg.org/ebooks/11.html.noimages'')],
             Obj [(''contentType'', Str ''text/html''),
                  (''url'', Str ''https://www.gutenberg.org/ebooks/11.html.images'')],
             Obj [(''contentType'', Str ''text/html''),
                  (''url'', Str ''https://www.gutenberg.org/files/11/11-h/11-h.htm'')]])"
proof -
  let ?a = "''https://www.gutenberg.org/ebooks/11.html.noimages''"
  let ?b = "''https://www.gutenberg.org/ebooks/11.html.images''"
  let ?c = "''https://www.gutenberg.org/files/11/11-h/11-h.htm''"
  let ?m = "described NAMESPACES_dc ''format'' [rdfValue ''text/html'']"
  let ?r = "Obj [(''id'', Num 11), (''title'', Null), (''authors'', Arr []),
               (''translators'', Arr []), (''type'', Str ''Text''), (''subjects'', Arr []),
               (''languages'', Arr []),
               (''formats'',
                  Arr [Obj [(''contentType'', Str ''text/html''), (''url'', Str ?a)],
                       Obj [(''contentType'', Str ''text/html''), (''url'', Str ?b)],
                       Obj [(''contentType'', Str ''text/html''), (''url'', Str ?c)]]),
               (''bookshelves'', Arr []), (''copyright'', Bool False)]"
  have m1: "first (getElementsByTagNameNS NAMESPACES_dc ''format'' (htmlFile ?a)) = Some ?m"
    by code_simp
  have m2: "first (getElementsByTagNameNS NAMESPACES_dc ''format'' (htmlFile ?b)) = Some ?m"
    by code_simp
  have v: "first (getElementsByTagNameNS NAMESPACES_rdf ''value'' ?m) = Some (rdfValue ''text/html'')"
    by code_simp
  have t: "textContent (rdfValue ''text/html'') = ''text/html''"
    by code_simp
  have u1: "getAttribute (htmlFile ?a) ''rdf:about'' = ?a"
    by code_simp
  have u2: "getAttribute (htmlFile ?b) ''rdf:about'' = ?b"
    by code_simp
  have "includes_str ?a ''noimages''"
    by code_simp
  then have n: "sublist ''noimages'' (getAttribute (htmlFile ?a) ''rdf:about'')"
    unfolding u1 includes_str_sublist .
  have h: "getBook ''11'' (Inr (Some (ebookDoc formatsExample))) = Inr ?r"
    by code_simp
  have g: "getProp ?r ''formats'' =
     Arr [Obj [(''contentType'', Str ''text/html''), (''url'', Str ?a)],
          Obj [(''contentType'', Str ''text/html''), (''url'', Str ?b)],
          Obj [(''contentType'', Str ''text/html''), (''url'', Str ?c)]]"
    by simp
  note k = getBook_formats_keep_rule
  from k have "first (getElementsByTagNameNS NAMESPACES_dc ''format'' (htmlFile ?a)) = Some ?m \<and>
      first (getElementsByTagNameNS NAMESPACES_rdf ''value'' ?m) = Some (rdfValue ''text/html'') \<and>
      first (getElementsByTagNameNS NAMESPACES_dc ''format'' (htmlFile ?b)) = Some ?m \<and>
      first (getElementsByTagNameNS NAMESPACES_rdf ''value'' ?m) = Some (rdfValue ''text/html'') \<and>
      textContent (rdfValue ''text/html'') = textContent (rdfValue ''text/html'') \<and>
      sublist ''noimages'' (getAttribute (htmlFile ?a) ''rdf:about'') \<longrightarrow>
    addFiles [htmlFile ?a, htmlFile ?b] [] =
     Inr [\<lparr>contentType = textContent (rdfValue ''text/html''),
            url = getAttribute (htmlFile ?a) ''rdf:about''\<rparr>,
          \<lparr>contentType = textContent (rdfValue ''text/html''),
            url = getAttribute (htmlFile ?b) ''rdf:about''\<rparr>]"
    by (elim conjE allE)
  with m1 m2 v n
  have "addFiles [htmlFile ?a, htmlFile ?b] [] =
     Inr [\<lparr>contentType = textContent (rdfValue ''text/html''),
            url = getAttribute (htmlFile ?a) ''rdf:about''\<rparr>,
          \<lparr>contentType = textContent (rdfValue ''text/html''),
            url = getAttribute (htmlFile ?b) ''rdf:about''\<rparr>]"
    by (simp only: simp_thms)
  then have p: "addFiles [htmlFile ?a, htmlFile ?b] [] =
     Inr [\<lparr>contentType = ''text/html'', url = ?a\<rparr>, \<lparr>contentType = ''text/html'', url = ?b\<rparr>]"
    unfolding t u1 u2 .
  from k have "getBook ''11'' (Inr (Some (ebookDoc formatsExample))) = Inr ?r \<and>
      first (getElementsByTagNameNS NAMESPACES_pg ''ebook'' (ebookDoc formatsExample))
        = Some (ebookEl formatsExample) \<longrightarrow>
      getProp ?r ''formats'' =
        Arr (map formatObj
          (spec_formats
             (getElementsByTagNameNS NAMESPACES_pg ''file'' (ebookEl formatsExample)) []))"
    by (elim conjE allE)
  with h first_ebookDoc [of formatsExample]
  have s: "getProp ?r ''formats'' =
        Arr (map formatObj
          (spec_formats
             (getElementsByTagNameNS NAMESPACES_pg ''file'' (ebookEl formatsExample)) []))"
    by (simp only: simp_thms)
  show ?thesis
    by (intro conjI exI [of _ ?r] p h s g)
qed

section \<open>Type\<close>

lemma getBook_type:
  assumes "getBook id' (Inr (Some root)) = Inr r"
    and "first (getElementsByTagNameNS NAMESPACES_pg ''ebook'' root) = Some book"
  shows "\<exists>t. first (getElementsByTagNameNS NAMESPACES_dc ''type'' book) = Some t \<and>
     getProp r ''type'' =
       Str (case first (getElementsByTagNameNS NAMESPACES_rdf ''value'' t) of
              None \<Rightarrow> ''Text'' | Some bookType \<Rightarrow> textContent bookType)"
proof -
  from getBook_returns [OF assms(1)] assms(2) obtain bookType
    where "getType book = Inr bookType" and "getProp r ''type'' = bookType"
    by auto
  then show ?thesis
    by (auto simp: getType_def split: option.splits)
qed

text \<open>
  C5. A document with a rights statement and no \<^verbatim>\<open>dc:type\<close> element, so with no
  classification value: \<^verbatim>\<open>getBook\<close> throws, where the specification asks for a
  record of type \<^verbatim>\<open>"Text"\<close>.
\<close>

theorem getBook_without_type_throws:
  "getBook ''11'' (Inr (Some (ebookDoc [rightsEl ''Public domain in the USA.'']))) = Inl TypeError"
  by code_simp

section \<open>The mapper\<close>

lemma mapper_on_record:
  assumes "getBook id' parsed = Inr book"
  shows "mapBookToBookResponseDTO book =
     Inr (BookDTO (parseInt id') (getProp book ''title'') (getProp book ''authors'')
            (getProp book ''translators'') (getProp book ''type'')
            (getProp book ''subjects'') (getProp book ''languages'')
            (getProp book ''formats'') Undefined (getProp book ''copyright''))"
proof -
  from getBook_returns [OF assms] obtain fs
    where b: "book = Obj fs" and n: "map_of fs ''bookShelves'' = None"
      and i: "map_of fs ''id'' = Some (parseInt id')"
    by auto
  show ?thesis
    unfolding b mapBookToBookResponseDTO_def using n i by simp
qed

text \<open>
  C3. A document with one bookshelf: the record of \<^verbatim>\<open>getBook\<close> has it under
  \<^verbatim>\<open>bookshelves\<close>, the mapper reads \<^verbatim>\<open>book.bookShelves\<close>, and the DTO has \<^verbatim>\<open>undefined\<close>
  under \<^verbatim>\<open>bookShelves\<close> and nothing under \<^verbatim>\<open>bookshelves\<close>.
\<close>

theorem mapper_loses_bookshelves:
  "\<exists>book dto.
     getBook ''11'' (Inr (Some (ebookDoc bookshelfExample))) = Inr book \<and>
     getProp book ''bookshelves'' = Arr [Str ''Harvard Classics''] \<and>
     mapBookToBookResponseDTO book = Inr dto \<and>
     getProp dto ''gutenbergId'' = Num 11 \<and>
     getProp dto ''bookShelves'' = Undefined \<and>
     getProp dto ''bookshelves'' = Undefined"
proof -
  let ?book = "Obj [(''id'', Num 11), (''title'', Null), (''authors'', Arr []),
               (''translators'', Arr []), (''type'', Str ''Text''), (''subjects'', Arr []),
               (''languages'', Arr []), (''formats'', Arr []),
               (''bookshelves'', Arr [Str ''Harvard Classics'']), (''copyright'', Bool False)]"
  have h: "getBook ''11'' (Inr (Some (ebookDoc bookshelfExample))) = Inr ?book"
    by code_simp
  have "getProp ?book ''bookshelves'' = Arr [Str ''Harvard Classics'']"
    by simp
  moreover have "mapBookToBookResponseDTO ?book =
     Inr (BookDTO (Num 11) Null (Arr []) (Arr []) (Str ''Text'') (Arr []) (Arr []) (Arr [])
            Undefined (Bool False))"
    by (simp add: mapBookToBookResponseDTO_def)
  moreover have "getProp (BookDTO (Num 11) Null (Arr []) (Arr []) (Str ''Text'') (Arr [])
       (Arr []) (Arr []) Undefined (Bool False)) ''gutenbergId'' = Num 11"
    by (simp add: BookDTO_def)
  moreover have "getProp (BookDTO (Num 11) Null (Arr []) (Arr []) (Str ''Text'') (Arr [])
       (Arr []) (Arr []) Undefined (Bool False)) ''bookShelves'' = Undefined"
    by (simp add: BookDTO_def)
  moreover have "getProp (BookDTO (Num 11) Null (Arr []) (Arr []) (Str ''Text'') (Arr [])
       (Arr []) (Arr []) Undefined (Bool False)) ''bookshelves'' = Undefined"
    by (simp add: BookDTO_def)
  ultimately show ?thesis using h by blast
qed

text \<open>
  C8. The mapper throws exactly on a falsy argument (\<^verbatim>\<open>undefined\<close>, \<^verbatim>\<open>null\<close>, \<^verbatim>\<open>false\<close>,
  \<^verbatim>\<open>0\<close>, \<^verbatim>\<open>-0\<close>, \<^verbatim>\<open>NaN\<close>, the empty string), and what it throws is the error ``Book entity is
  required''; on every other argument it returns a DTO.
\<close>

theorem mapper_throws_iff_falsy:
  "(\<forall>e. mapBookToBookResponseDTO book = Inl e
      \<longleftrightarrow> e = Error ''Book entity is required'' \<and> \<not> truthy book) \<and>
   ((\<exists>dto. mapBookToBookResponseDTO book = Inr dto) \<longleftrightarrow> truthy book) \<and>
   (\<not> truthy book
      \<longleftrightarrow> book \<in> {Undefined, Null, Bool False, Num 0, NegZero, NaN, Str []})"
proof -
  have "\<not> truthy book \<longleftrightarrow> book \<in> {Undefined, Null, Bool False, Num 0, NegZero, NaN, Str []}"
    by (cases book) auto
  then show ?thesis
    by (auto simp: mapBookToBookResponseDTO_def)
qed

section \<open>Upsert\<close>

lemma map_of_setProp: "map_of (setProp k v fs) = (map_of fs)(k \<mapsto> v)"
  by (induction fs) auto

lemma setProp_same: "map_of fs k = Some v \<Longrightarrow> setProp k v fs = fs"
  by (induction fs) (auto split: if_splits)

lemma map_of_replaceFields: "map_of (replaceFields u fs) = map_of fs ++ map_of (rev u)"
  unfolding replaceFields_def
  by (induction u arbitrary: fs) (auto simp: map_of_setProp)

lemma replaceFields_same:
  "\<forall>(k, v) \<in> set u. map_of fs k = Some v \<Longrightarrow> replaceFields u fs = fs"
  unfolding replaceFields_def
  by (induction u) (auto simp: setProp_same)

lemma replaceFields_sets:
  assumes "distinct (map fst u)" and "(k, v) \<in> set u"
  shows "map_of (replaceFields u fs) k = Some v"
proof -
  from assms have "map_of (rev u) k = Some v"
    by (intro map_of_is_SomeI) (simp_all add: rev_map [symmetric])
  then show ?thesis
    by (simp add: map_of_replaceFields)
qed

lemma replaceFields_idem:
  assumes "distinct (map fst u)"
  shows "replaceFields u (replaceFields u fs) = replaceFields u fs"
  using replaceFields_sets [OF assms] by (intro replaceFields_same) auto

lemma meetsFilter_gutenbergId:
  "meetsFilter [(''gutenbergId'', g)] doc \<longleftrightarrow> getProp doc ''gutenbergId'' = g"
  by (simp add: meetsFilter_def)

lemma replaced_gutenbergId:
  assumes "distinct (map fst u)" and "(''gutenbergId'', g) \<in> set u"
  shows "getProp (Obj (replaceFields u fs)) ''gutenbergId'' = g"
  using replaceFields_sets [OF assms] by simp

lemma findOneAndUpdate_idem:
  assumes "distinct (map fst (ownFields upd))"
    and "(''gutenbergId'', g) \<in> set (ownFields upd)"
  shows "findOneAndUpdate [(''gutenbergId'', g)] upd
           (findOneAndUpdate [(''gutenbergId'', g)] upd store) =
         findOneAndUpdate [(''gutenbergId'', g)] upd store"
  by (induction store)
    (simp_all add: meetsFilter_gutenbergId replaced_gutenbergId [OF assms]
      replaceFields_idem [OF assms(1)] del: getProp.simps)

lemma findOneAndUpdate_ids:
  assumes "distinct (map fst (ownFields upd))"
    and "(''gutenbergId'', g) \<in> set (ownFields upd)"
  shows "map (\<lambda>d. getProp d ''gutenbergId'') (findOneAndUpdate [(''gutenbergId'', g)] upd store) =
     (if g \<in> set (map (\<lambda>d. getProp d ''gutenbergId'') store)
      then map (\<lambda>d. getProp d ''gutenbergId'') store
      else map (\<lambda>d. getProp d ''gutenbergId'') store @ [g])"
  by (induction store)
    (auto simp: meetsFilter_gutenbergId replaced_gutenbergId [OF assms] simp del: getProp.simps)

lemma findOneAndUpdate_fields:
  assumes "distinct (map fst (ownFields upd))"
    and "(''gutenbergId'', g) \<in> set (ownFields upd)"
    and "distinct (map (\<lambda>d. getProp d ''gutenbergId'') store)"
    and "d \<in> set (findOneAndUpdate [(''gutenbergId'', g)] upd store)"
    and "getProp d ''gutenbergId'' = g"
    and "(k, v) \<in> set (ownFields upd)"
  shows "getProp d k = v"
  using assms(3-5)
proof (induction store)
  case Nil
  then show ?case
    using replaceFields_sets [OF assms(1,6)] by simp
next
  case (Cons doc docs)
  show ?case
  proof (cases "getProp doc ''gutenbergId'' = g")
    case True
    with Cons.prems have "d = Obj (replaceFields (ownFields upd) (ownFields doc))"
      by (auto simp: meetsFilter_gutenbergId)
    then show ?thesis
      using replaceFields_sets [OF assms(1,6)] by simp
  next
    case False
    with Cons show ?thesis
      by (auto simp: meetsFilter_gutenbergId)
  qed
qed

lemma mapped_fields:
  assumes "mapBookToBookResponseDTO book = Inr bookDTO"
  shows "distinct (map fst (ownFields bookDTO)) \<and>
     (''gutenbergId'', getProp bookDTO ''gutenbergId'') \<in> set (ownFields bookDTO)"
  using assms by (auto simp: mapBookToBookResponseDTO_def BookDTO_def split: if_splits)

lemma findOneAndUpdate_insert:
  "g \<notin> set (map (\<lambda>d. getProp d ''gutenbergId'') store) \<Longrightarrow>
     findOneAndUpdate [(''gutenbergId'', g)] upd store =
       store @ [Obj (replaceFields (ownFields upd) [(''gutenbergId'', g)])]"
  by (induction store) (auto simp: meetsFilter_gutenbergId)

lemma findOneAndUpdate_others:
  assumes "distinct (map fst (ownFields upd))"
    and "(''gutenbergId'', g) \<in> set (ownFields upd)"
  shows "filter (\<lambda>d. getProp d ''gutenbergId'' \<noteq> g)
           (findOneAndUpdate [(''gutenbergId'', g)] upd store) =
         filter (\<lambda>d. getProp d ''gutenbergId'' \<noteq> g) store"
  by (induction store)
    (auto simp: meetsFilter_gutenbergId replaced_gutenbergId [OF assms] simp del: getProp.simps)

lemma mapped_new_document:
  assumes "mapBookToBookResponseDTO book = Inr bookDTO"
  shows "Obj (replaceFields (ownFields bookDTO)
            [(''gutenbergId'', getProp bookDTO ''gutenbergId'')]) = bookDTO"
  using assms
  by (auto simp: mapBookToBookResponseDTO_def BookDTO_def replaceFields_def split: if_splits)

text \<open>
  C9. For every document on which \<^verbatim>\<open>getBook\<close> returns a record and for every store: the
  turn of the orchestrator's loop maps the record, succeeds, and leaves the store of
  one upsert of the DTO; the same turn on the store it left changes nothing. The
  identifiers in the store after the turn are those before it, with the record's
  appended when it was not among them, and then the new document is the DTO; the
  documents of other identifiers are as they were. So a store with one document for
  each identifier stays one, and its document for the record's identifier holds, under
  every name of the DTO, the DTO's value.
\<close>

theorem processRecord_idempotent:
  assumes "getBook subdirectory parsed = Inr book"
  shows "\<exists>bookDTO store'.
     mapBookToBookResponseDTO book = Inr bookDTO \<and>
     processRecord subdirectory parsed store = Inr store' \<and>
     store' = upsertBook bookDTO store \<and>
     processRecord subdirectory parsed store' = Inr store' \<and>
     upsertBook bookDTO store' = store' \<and>
     map (\<lambda>d. getProp d ''gutenbergId'') store' =
       (if getProp bookDTO ''gutenbergId'' \<in> set (map (\<lambda>d. getProp d ''gutenbergId'') store)
        then map (\<lambda>d. getProp d ''gutenbergId'') store
        else map (\<lambda>d. getProp d ''gutenbergId'') store @ [getProp bookDTO ''gutenbergId'']) \<and>
     (getProp bookDTO ''gutenbergId'' \<notin> set (map (\<lambda>d. getProp d ''gutenbergId'') store) \<longrightarrow>
        store' = store @ [bookDTO]) \<and>
     filter (\<lambda>d. getProp d ''gutenbergId'' \<noteq> getProp bookDTO ''gutenbergId'') store' =
       filter (\<lambda>d. getProp d ''gutenbergId'' \<noteq> getProp bookDTO ''gutenbergId'') store \<and>
     (distinct (map (\<lambda>d. getProp d ''gutenbergId'') store) \<longrightarrow>
        distinct (map (\<lambda>d. getProp d ''gutenbergId'') store') \<and>
        (\<forall>d \<in> set store'. getProp d ''gutenbergId'' = getProp bookDTO ''gutenbergId'' \<longrightarrow>
           (\<forall>(k, v) \<in> set (ownFields bookDTO). getProp d k = v)))"
proof -
  from mapper_on_record [OF assms] obtain bookDTO
    where m: "mapBookToBookResponseDTO book = Inr bookDTO"
    by blast
  define store' where "store' = upsertBook bookDTO store"
  let ?g = "getProp bookDTO ''gutenbergId''"
  from mapped_fields [OF m]
  have u: "distinct (map fst (ownFields bookDTO))"
    and g: "(''gutenbergId'', ?g) \<in> set (ownFields bookDTO)"
    by simp_all
  have p: "processRecord subdirectory parsed store = Inr store'"
    using assms m by (simp add: processRecord_def store'_def)
  have i: "upsertBook bookDTO store' = store'"
    unfolding store'_def upsertBook_def by (rule findOneAndUpdate_idem [OF u g])
  have again: "processRecord subdirectory parsed store' = Inr store'"
    using assms m i by (simp add: processRecord_def)
  have ids: "map (\<lambda>d. getProp d ''gutenbergId'') store' =
      (if ?g \<in> set (map (\<lambda>d. getProp d ''gutenbergId'') store)
       then map (\<lambda>d. getProp d ''gutenbergId'') store
       else map (\<lambda>d. getProp d ''gutenbergId'') store @ [?g])"
    unfolding store'_def upsertBook_def by (rule findOneAndUpdate_ids [OF u g])
  have new: "store' = store @ [bookDTO]"
    if "?g \<notin> set (map (\<lambda>d. getProp d ''gutenbergId'') store)"
    using findOneAndUpdate_insert [OF that, of bookDTO] mapped_new_document [OF m]
    unfolding store'_def upsertBook_def by simp
  have others: "filter (\<lambda>d. getProp d ''gutenbergId'' \<noteq> ?g) store' =
       filter (\<lambda>d. getProp d ''gutenbergId'' \<noteq> ?g) store"
    unfolding store'_def upsertBook_def by (rule findOneAndUpdate_others [OF u g])
  have one: "distinct (map (\<lambda>d. getProp d ''gutenbergId'') store')"
    if "distinct (map (\<lambda>d. getProp d ''gutenbergId'') store)"
    using that unfolding ids by simp
  have fields: "getProp d k = v"
    if "distinct (map (\<lambda>d. getProp d ''gutenbergId'') store)" and "d \<in> set store'"
      and "getProp d ''gutenbergId'' = ?g" and "(k, v) \<in> set (ownFields bookDTO)" for d k v
    using findOneAndUpdate_fields [OF u g that(1) _ that(3,4)] that(2)
    unfolding store'_def upsertBook_def by simp
  from fields have f: "distinct (map (\<lambda>d. getProp d ''gutenbergId'') store) \<longrightarrow>
     (\<forall>d \<in> set store'. getProp d ''gutenbergId'' = ?g \<longrightarrow>
        (\<forall>(k, v) \<in> set (ownFields bookDTO). getProp d k = v))"
    by blast
  have s: "store' = upsertBook bookDTO store"
    by (rule store'_def)
  from m p s again i ids new others one f show ?thesis
    by blast
qed

text \<open>
  The same document on two stores. One holds an older document for the identifier 11,
  with a field the DTO does not have: the turn replaces the title, keeps
  \<^verbatim>\<open>downloads\<close>, and a second turn changes nothing. The other is empty: the turn
  inserts the DTO, and a second turn changes nothing.
\<close>

theorem processRecord_idempotent_witness:
  "(\<exists>s. processRecord ''11'' (Inr (Some (ebookDoc bookshelfExample))) storedExample = Inr s \<and>
      processRecord ''11'' (Inr (Some (ebookDoc bookshelfExample))) s = Inr s \<and>
      map (\<lambda>d. getProp d ''gutenbergId'') s = [Num 11] \<and>
      map (\<lambda>d. getProp d ''title'') s = [Null] \<and>
      map (\<lambda>d. getProp d ''downloads'') s = [Num 5]) \<and>
   (\<exists>s. processRecord ''11'' (Inr (Some (ebookDoc bookshelfExample))) [] = Inr s \<and>
      processRecord ''11'' (Inr (Some (ebookDoc bookshelfExample))) s = Inr s \<and>
      s = [BookDTO (Num 11) Null (Arr []) (Arr []) (Str ''Text'') (Arr []) (Arr []) (Arr [])
             Undefined (Bool False)])"
proof -
  let ?doc = "Inr (Some (ebookDoc bookshelfExample))"
  let ?book = "Obj [(''id'', Num 11), (''title'', Null), (''authors'', Arr []),
               (''translators'', Arr []), (''type'', Str ''Text''), (''subjects'', Arr []),
               (''languages'', Arr []), (''formats'', Arr []),
               (''bookshelves'', Arr [Str ''Harvard Classics'']), (''copyright'', Bool False)]"
  let ?s = "[Obj [(''_id'', Num 1), (''gutenbergId'', Num 11), (''title'', Null),
           (''downloads'', Num 5), (''authors'', Arr []),
           (''translators'', Arr []), (''type'', Str ''Text''),
           (''subjects'', Arr []), (''languages'', Arr []),
           (''formats'', Arr []), (''bookShelves'', Undefined),
           (''copyright'', Bool False)]]"
  let ?t = "[BookDTO (Num 11) Null (Arr []) (Arr []) (Str ''Text'') (Arr []) (Arr []) (Arr [])
             Undefined (Bool False)]"
  have h: "getBook ''11'' ?doc = Inr ?book"
    by code_simp
  have again: "processRecord ''11'' ?doc store = Inr st \<Longrightarrow> processRecord ''11'' ?doc st = Inr st"
    for store st
    using processRecord_idempotent [OF h, of store] by (elim exE conjE) simp
  have e1: "processRecord ''11'' ?doc storedExample = Inr ?s"
    by code_simp
  have e2: "processRecord ''11'' ?doc [] = Inr ?t"
    by code_simp
  have a1: "processRecord ''11'' ?doc ?s = Inr ?s"
    using e1 by (rule again)
  have a2: "processRecord ''11'' ?doc ?t = Inr ?t"
    using e2 by (rule again)
  have g: "map (\<lambda>d. getProp d ''gutenbergId'') ?s = [Num 11]"
    by simp
  have t: "map (\<lambda>d. getProp d ''title'') ?s = [Null]"
    by simp
  have d: "map (\<lambda>d. getProp d ''downloads'') ?s = [Num 5]"
    by simp
  have 1: "\<exists>s. processRecord ''11'' ?doc storedExample = Inr s \<and>
      processRecord ''11'' ?doc s = Inr s \<and>
      map (\<lambda>d. getProp d ''gutenbergId'') s = [Num 11] \<and>
      map (\<lambda>d. getProp d ''title'') s = [Null] \<and>
      map (\<lambda>d. getProp d ''downloads'') s = [Num 5]"
    by (rule exI [of _ ?s]) (intro conjI e1 a1 g t d)
  have 2: "\<exists>s. processRecord ''11'' ?doc [] = Inr s \<and>
      processRecord ''11'' ?doc s = Inr s \<and> s = ?t"
    by (rule exI [of _ ?t]) (intro conjI e2 a2 refl)
  from 1 2 show ?thesis by (rule conjI)
qed

end
